theory Spec2Isabelle
  imports
    Main
    "HOL-Library.Sublist"
    "HOL-Library.AList"
    "HOL-Library.Char_ord"
    "HOL-Library.List_Lexorder"
    "HOL-Library.Product_Lexorder"
    "HOL-Library.Extended_Nat"
begin

section \<open>Scope of the model\<close>

text \<open>
  This theory embeds \<^verbatim>\<open>readgeom.py\<close> (classes \<^verbatim>\<open>MolecularFileParser\<close> and
  \<^verbatim>\<open>MolecularFormulaGenerator\<close>) as HOL functions.

  \<^item> A Python \<^verbatim>\<open>str\<close> is a \<^typ>\<open>string\<close>. The model covers ASCII text: one character
    per byte, the whitespace characters of \<^verbatim>\<open>str.isspace\<close> below 128, the digits
    \<^verbatim>\<open>0\<close>..\<^verbatim>\<open>9\<close>, and ASCII case mapping. A character at or above 128 is an opaque
    symbol of the model (Python's Unicode whitespace, digits and case mappings there, and
    UTF-8 decoding, are not modelled).
  \<^item> A Python \<^verbatim>\<open>int\<close> is an \<^typ>\<open>int\<close>. The interpreter's limit on the number of
    digits \<^verbatim>\<open>int()\<close> converts is not modelled.
  \<^item> A Python \<^verbatim>\<open>float\<close> is a \<open>pyfloat\<close>: infinity, NaN, or the exact decimal value
    of the literal that was parsed. Rounding of a finite value to binary64 is not
    modelled; overflow to infinity is.
  \<^item> An exception is a value of type \<open>exn\<close>; a computation that can raise returns
    \<open>exn + 'a\<close> with \<open>Inl\<close> for the raised exception, and \<^verbatim>\<open>try/except\<close> is
    \<open>try_except\<close>.
  \<^item> Debug printing does not influence any result and is left out.
\<close>

section \<open>Python primitives\<close>

abbreviation BSL :: char where "BSL \<equiv> CHR 0x5C"
abbreviation NL :: char where "NL \<equiv> CHR 0x0A"

subsection \<open>Exceptions\<close>

datatype exn =
  Exception | ValueError | UnicodeDecodeError | IndexError
  | OSError | FileNotFoundError | PermissionError

text \<open>The classes an exception is an instance of (itself and its base classes).\<close>

fun mro :: "exn \<Rightarrow> exn list" where
  "mro Exception = [Exception]"
| "mro ValueError = [ValueError, Exception]"
| "mro UnicodeDecodeError = [UnicodeDecodeError, ValueError, Exception]"
| "mro IndexError = [IndexError, Exception]"
| "mro OSError = [OSError, Exception]"
| "mro FileNotFoundError = [FileNotFoundError, OSError, Exception]"
| "mro PermissionError = [PermissionError, OSError, Exception]"

definition isinstance :: "exn \<Rightarrow> exn list \<Rightarrow> bool" where
  "isinstance e classes = list_ex (\<lambda>c. c \<in> set (mro e)) classes"

definition bind :: "exn + 'a \<Rightarrow> ('a \<Rightarrow> exn + 'b) \<Rightarrow> exn + 'b" where
  "bind m f = (case m of Inl e \<Rightarrow> Inl e | Inr v \<Rightarrow> f v)"

text \<open>\<^verbatim>\<open>try: body  except classes: handler\<close>\<close>

definition try_except :: "exn + 'a \<Rightarrow> exn list \<Rightarrow> (exn \<Rightarrow> exn + 'a) \<Rightarrow> exn + 'a" where
  "try_except body classes handler =
     (case body of
        Inl e \<Rightarrow> if isinstance e classes then handler e else Inl e
      | Inr v \<Rightarrow> Inr v)"

text \<open>Subscription \<^verbatim>\<open>xs[i]\<close>, which raises when \<open>i\<close> is outside \<open>-len(xs) .. len(xs) - 1\<close>.\<close>

definition getitem :: "'a list \<Rightarrow> int \<Rightarrow> exn + 'a" where
  "getitem xs i =
     (if 0 \<le> i \<and> i < int (length xs) then Inr (xs ! nat i)
      else if i < 0 \<and> - i \<le> int (length xs) then Inr (xs ! nat (int (length xs) + i))
      else Inl IndexError)"

subsection \<open>Characters and strings\<close>

definition isspace :: "char \<Rightarrow> bool" where
  "isspace c = (c \<in> set [CHR 0x09, CHR 0x0A, CHR 0x0B, CHR 0x0C, CHR 0x0D,
                            CHR 0x1C, CHR 0x1D, CHR 0x1E, CHR 0x1F, CHR 0x20])"

definition isdigit :: "char \<Rightarrow> bool" where
  "isdigit c = (c \<in> set ''0123456789'')"

definition ascii_uppercase :: string where
  "ascii_uppercase = ''ABCDEFGHIJKLMNOPQRSTUVWXYZ''"

definition ascii_lowercase :: string where
  "ascii_lowercase = ''abcdefghijklmnopqrstuvwxyz''"

text \<open>The character class \<^verbatim>\<open>[A-Za-z]\<close>.\<close>

definition isalpha :: "char \<Rightarrow> bool" where
  "isalpha c = (c \<in> set ascii_uppercase \<or> c \<in> set ascii_lowercase)"

text \<open>The character class \<^verbatim>\<open>[A-Za-z0-9]\<close>.\<close>

definition isalnum :: "char \<Rightarrow> bool" where
  "isalnum c = (isalpha c \<or> isdigit c)"

definition lower_char :: "char \<Rightarrow> char" where
  "lower_char c = (case map_of (zip ascii_uppercase ascii_lowercase) c of Some d \<Rightarrow> d | None \<Rightarrow> c)"

definition upper_char :: "char \<Rightarrow> char" where
  "upper_char c = (case map_of (zip ascii_lowercase ascii_uppercase) c of Some d \<Rightarrow> d | None \<Rightarrow> c)"

definition py_lower :: "string \<Rightarrow> string" where
  "py_lower s = map lower_char s"

definition py_upper :: "string \<Rightarrow> string" where
  "py_upper s = map upper_char s"

text \<open>\<^verbatim>\<open>s.strip()\<close>\<close>

definition py_strip :: "string \<Rightarrow> string" where
  "py_strip s = rev (dropWhile isspace (rev (dropWhile isspace s)))"

text \<open>\<^verbatim>\<open>s.split()\<close>: the maximal runs of non-whitespace characters. The first argument
  is the token being read, reversed.\<close>

fun split_words :: "string \<Rightarrow> string \<Rightarrow> string list" where
  "split_words cur [] = (if cur = [] then [] else [rev cur])"
| "split_words cur (c # cs) =
     (if isspace c then (if cur = [] then split_words [] cs else rev cur # split_words [] cs)
      else split_words (c # cur) cs)"

definition py_split :: "string \<Rightarrow> string list" where
  "py_split s = split_words [] s"

text \<open>\<^verbatim>\<open>s.split(sep)\<close> for a one-character separator: always at least one piece.\<close>

fun split_on :: "char \<Rightarrow> string \<Rightarrow> string list" where
  "split_on sep [] = [[]]"
| "split_on sep (c # cs) =
     (if c = sep then [] # split_on sep cs
      else (case split_on sep cs of h # t \<Rightarrow> (c # h) # t | [] \<Rightarrow> [[c]]))"

text \<open>\<^verbatim>\<open>s.split(sep)\<close> for the two-character separator \<open>[a, b]\<close>, scanning left to right.\<close>

fun split_on2 :: "char \<Rightarrow> char \<Rightarrow> string \<Rightarrow> string list" where
  "split_on2 a b (c # d # cs) =
     (if c = a \<and> d = b then [] # split_on2 a b cs
      else (case split_on2 a b (d # cs) of h # t \<Rightarrow> (c # h) # t | [] \<Rightarrow> [[c]]))"
| "split_on2 a b cs = [cs]"

text \<open>\<^verbatim>\<open>sub in s\<close>\<close>

fun contains :: "string \<Rightarrow> string \<Rightarrow> bool" where
  "contains sub [] = (sub = [])"
| "contains sub (c # cs) = (prefix sub (c # cs) \<or> contains sub cs)"

text \<open>\<^verbatim>\<open>s.find(sub)\<close>: the lowest index where \<open>sub\<close> starts, or \<open>-1\<close>.\<close>

fun find_from :: "string \<Rightarrow> string \<Rightarrow> int \<Rightarrow> int" where
  "find_from sub [] i = (if sub = [] then i else -1)"
| "find_from sub (c # cs) i = (if prefix sub (c # cs) then i else find_from sub cs (i + 1))"

definition py_find :: "string \<Rightarrow> string \<Rightarrow> int" where
  "py_find sub s = find_from sub s 0"

text \<open>\<^verbatim>\<open>s[:i]\<close> and \<^verbatim>\<open>s[i:]\<close>\<close>

definition slice_to :: "'a list \<Rightarrow> int \<Rightarrow> 'a list" where
  "slice_to s i = (if i < 0 then take (length s - nat (- i)) s else take (nat i) s)"

definition slice_from :: "'a list \<Rightarrow> int \<Rightarrow> 'a list" where
  "slice_from s i = (if i < 0 then drop (length s - nat (- i)) s else drop (nat i) s)"

subsection \<open>Numbers\<close>

definition digit_chars :: string where
  "digit_chars = ''0123456789''"

fun str_nat :: "nat \<Rightarrow> string" where
  "str_nat n =
     (if n < 10 then [digit_chars ! n] else str_nat (n div 10) @ [digit_chars ! (n mod 10)])"

text \<open>\<^verbatim>\<open>str(i)\<close>\<close>

definition py_str :: "int \<Rightarrow> string" where
  "py_str i = (if i < 0 then CHR ''-'' # str_nat (nat (- i)) else str_nat (nat i))"

definition digit_value :: "char \<Rightarrow> nat" where
  "digit_value c = of_char c - 48"

definition digits_value :: "string \<Rightarrow> nat" where
  "digits_value s = foldl (\<lambda>a c. 10 * a + digit_value c) 0 s"

text \<open>A digit part: digits, with single underscores allowed between digits.\<close>

definition valid_digitpart :: "string \<Rightarrow> bool" where
  "valid_digitpart s =
     (s \<noteq> [] \<and> isdigit (hd s) \<and> isdigit (last s)
      \<and> list_all (\<lambda>c. isdigit c \<or> c = CHR ''_'') s \<and> \<not> contains ''__'' s)"

definition digitpart_value :: "string \<Rightarrow> nat" where
  "digitpart_value s = digits_value (filter isdigit s)"

text \<open>An optional sign: whether it is a minus, and the rest.\<close>

definition split_sign :: "string \<Rightarrow> bool \<times> string" where
  "split_sign s =
     (case s of
        [] \<Rightarrow> (False, [])
      | c # cs \<Rightarrow> if c = CHR ''-'' then (True, cs) else if c = CHR ''+'' then (False, cs)
                 else (False, s))"

text \<open>\<^verbatim>\<open>int(s)\<close> in base 10.\<close>

definition py_int :: "string \<Rightarrow> exn + int" where
  "py_int s =
     (case split_sign (py_strip s) of
        (neg, ds) \<Rightarrow>
          if valid_digitpart ds
          then Inr (if neg then - int (digitpart_value ds) else int (digitpart_value ds))
          else Inl ValueError)"

datatype pyfloat = Finite rat | PosInf | NegInf | NaN

text \<open>A literal at or beyond \<open>2^1024 - 2^970\<close> in magnitude rounds to infinity.\<close>

definition float_of_rat :: "rat \<Rightarrow> pyfloat" where
  "float_of_rat r =
     (if 2 ^ 1024 - 2 ^ 970 \<le> \<bar>r\<bar> then (if r < 0 then NegInf else PosInf) else Finite r)"

text \<open>\<^verbatim>\<open>[digitpart] "." digitpart | digitpart ["."]\<close>: the digits as a number, and the
  number of digits after the point.\<close>

definition parse_number :: "string \<Rightarrow> (nat \<times> nat) option" where
  "parse_number s =
     (let ip = takeWhile (\<lambda>c. c \<noteq> CHR ''.'') s;
          rest = dropWhile (\<lambda>c. c \<noteq> CHR ''.'') s
      in case rest of
           [] \<Rightarrow> if valid_digitpart ip then Some (digitpart_value ip, 0) else None
         | _ # fp \<Rightarrow>
             if (ip = [] \<or> valid_digitpart ip) \<and> (fp = [] \<or> valid_digitpart fp)
                \<and> (ip \<noteq> [] \<or> fp \<noteq> [])
             then Some (digitpart_value (ip @ fp), length (filter isdigit fp))
             else None)"

text \<open>\<^verbatim>\<open>("e" | "E") [sign] digitpart\<close>, given the text after the \<^verbatim>\<open>e\<close>.\<close>

definition parse_exponent :: "string \<Rightarrow> int option" where
  "parse_exponent s =
     (case split_sign s of
        (neg, ds) \<Rightarrow>
          if valid_digitpart ds
          then Some (if neg then - int (digitpart_value ds) else int (digitpart_value ds))
          else None)"

definition scale10 :: "nat \<Rightarrow> int \<Rightarrow> rat" where
  "scale10 m k = (if 0 \<le> k then of_nat m * 10 ^ nat k else of_nat m / 10 ^ nat (- k))"

definition parse_floatnumber :: "string \<Rightarrow> rat option" where
  "parse_floatnumber s =
     (let is_e = (\<lambda>c. c = CHR ''e'' \<or> c = CHR ''E'');
          mant = takeWhile (\<lambda>c. \<not> is_e c) s;
          rest = dropWhile (\<lambda>c. \<not> is_e c) s
      in case parse_number mant of
           None \<Rightarrow> None
         | Some (m, nfrac) \<Rightarrow>
             (case rest of
                [] \<Rightarrow> Some (scale10 m (- int nfrac))
              | _ # ex \<Rightarrow>
                  (case parse_exponent ex of
                     None \<Rightarrow> None
                   | Some e \<Rightarrow> Some (scale10 m (e - int nfrac)))))"

text \<open>\<^verbatim>\<open>float(s)\<close>: surrounding whitespace is ignored; an optional sign; then
  \<^verbatim>\<open>inf\<close>, \<^verbatim>\<open>infinity\<close> or \<^verbatim>\<open>nan\<close> in any case, or a decimal number.\<close>

definition py_float :: "string \<Rightarrow> exn + pyfloat" where
  "py_float s =
     (case split_sign (py_strip s) of
        (neg, u) \<Rightarrow>
          if py_lower u = ''inf'' \<or> py_lower u = ''infinity''
          then Inr (if neg then NegInf else PosInf)
          else if py_lower u = ''nan'' then Inr NaN
          else (case parse_floatnumber u of
                  None \<Rightarrow> Inl ValueError
                | Some r \<Rightarrow> Inr (float_of_rat (if neg then - r else r))))"

section \<open>Regular expressions\<close>

text \<open>
  The patterns of the program, with the backtracking semantics of \<^verbatim>\<open>re\<close>: \<open>rmatch r s\<close>
  lists what is left of \<open>s\<close> after each way \<open>r\<close> matches a prefix of it, in the order
  the matcher tries them (greedy repetition first), so the head of the list is the match
  Python reports. \<open>Star\<close> and \<open>Plus\<close> repeat a character class, which is all the
  program's patterns need. \<open>Dollar\<close> is \<^verbatim>\<open>$\<close>: the end of the string, or just before a
  newline that ends it.
\<close>

datatype regex =
  Class "char \<Rightarrow> bool"
  | Cat regex regex
  | Alt regex regex
  | Opt regex
  | Star "char \<Rightarrow> bool"
  | Plus "char \<Rightarrow> bool"
  | Eps
  | Dollar

fun star_rests :: "(char \<Rightarrow> bool) \<Rightarrow> string \<Rightarrow> string list" where
  "star_rests p [] = [[]]"
| "star_rests p (c # cs) = (if p c then star_rests p cs @ [c # cs] else [c # cs])"

fun rmatch :: "regex \<Rightarrow> string \<Rightarrow> string list" where
  "rmatch (Class p) s = (case s of [] \<Rightarrow> [] | c # cs \<Rightarrow> if p c then [cs] else [])"
| "rmatch (Cat a b) s = concat (map (rmatch b) (rmatch a s))"
| "rmatch (Alt a b) s = rmatch a s @ rmatch b s"
| "rmatch (Opt a) s = rmatch a s @ [s]"
| "rmatch (Star p) s = star_rests p s"
| "rmatch (Plus p) s = (case s of [] \<Rightarrow> [] | c # cs \<Rightarrow> if p c then star_rests p cs else [])"
| "rmatch Eps s = [s]"
| "rmatch Dollar s = (if s = [] \<or> s = [NL] then [s] else [])"

text \<open>\<^verbatim>\<open>re.match(r, s)\<close> is not \<^verbatim>\<open>None\<close>.\<close>

definition re_match :: "regex \<Rightarrow> string \<Rightarrow> bool" where
  "re_match r s = (case rmatch r s of [] \<Rightarrow> False | _ # _ \<Rightarrow> True)"

text \<open>A literal, one character at a time; with \<^verbatim>\<open>re.IGNORECASE\<close>, up to case.\<close>

definition lit :: "string \<Rightarrow> regex" where
  "lit w = foldr (\<lambda>c r. Cat (Class (\<lambda>d. d = c)) r) w Eps"

definition lit_ci :: "string \<Rightarrow> regex" where
  "lit_ci w = foldr (\<lambda>c r. Cat (Class (\<lambda>d. lower_char d = lower_char c)) r) w Eps"

text \<open>
  \<^verbatim>\<open>re.finditer\<close>: the matches from left to right, each search starting where the last
  match ended. \<open>m s\<close> is the match at the start of \<open>s\<close>: a value and what is left of
  \<open>s\<close>. (After an empty match the search moves on by one character; none of the
  program's patterns matches the empty string.)
\<close>

function finditer :: "(string \<Rightarrow> ('a \<times> string) option) \<Rightarrow> string \<Rightarrow> 'a list" where
  "finditer m s =
     (case m s of
        Some (v, rest) \<Rightarrow>
          v # (if length rest < length s then finditer m rest
               else (case s of [] \<Rightarrow> [] | _ # cs \<Rightarrow> finditer m cs))
      | None \<Rightarrow> (case s of [] \<Rightarrow> [] | _ # cs \<Rightarrow> finditer m cs))"
  by pat_completeness auto
termination
  by (relation "measure (\<lambda>(m, s). length s)") auto

text \<open>\<^verbatim>\<open>^[A-Za-z]+$\<close>\<close>

definition ELEMENT_RE :: regex where
  "ELEMENT_RE = Cat (Plus isalpha) Dollar"

text \<open>\<^verbatim>\<open>^[A-Za-z]+(?:-[A-Za-z0-9]+)?$\<close>\<close>

definition ELEMENT_TAG_RE :: regex where
  "ELEMENT_TAG_RE =
     Cat (Plus isalpha) (Cat (Opt (Cat (Class (\<lambda>c. c = CHR ''-'')) (Plus isalnum))) Dollar)"

text \<open>\<^verbatim>\<open>^[+-]?\d+\s+[+-]?\d+\s*$\<close>\<close>

definition is_sign :: "char \<Rightarrow> bool" where
  "is_sign c = (c = CHR ''+'' \<or> c = CHR ''-'')"

definition CHG_MULT_RE :: regex where
  "CHG_MULT_RE =
     Cat (Opt (Class is_sign)) (Cat (Plus isdigit) (Cat (Plus isspace)
       (Cat (Opt (Class is_sign)) (Cat (Plus isdigit) (Cat (Star isspace) Dollar)))))"

text \<open>\<^verbatim>\<open>(?i)standard\s+orientation:\<close>\<close>

definition STD_ORIENT_RE :: regex where
  "STD_ORIENT_RE = Cat (lit_ci ''standard'') (Cat (Plus isspace) (lit_ci ''orientation:''))"

text \<open>
  \<^verbatim>\<open>(?:angstrom|bohr|au)?\s*;?\s*(?:geometry|geom)\s*=\s*\{([^}]*)\}\<close> with
  \<^verbatim>\<open>IGNORECASE | DOTALL\<close>, in three parts: up to the opening brace, the group, and the
  closing brace.
\<close>

definition GEOM_PRE_RE :: regex where
  "GEOM_PRE_RE =
     Cat (Opt (Alt (lit_ci ''angstrom'') (Alt (lit_ci ''bohr'') (lit_ci ''au''))))
       (Cat (Star isspace) (Cat (Opt (Class (\<lambda>c. c = CHR '';''))) (Cat (Star isspace)
         (Cat (Alt (lit_ci ''geometry'') (lit_ci ''geom'')) (Cat (Star isspace)
           (Cat (Class (\<lambda>c. c = CHR ''='')) (Cat (Star isspace)
             (Class (\<lambda>c. c = CHR ''{'')))))))))"

definition GEOM_BODY_RE :: regex where
  "GEOM_BODY_RE = Star (\<lambda>c. c \<noteq> CHR ''}'')"

definition GEOM_POST_RE :: regex where
  "GEOM_POST_RE = Class (\<lambda>c. c = CHR ''}'')"

text \<open>The first way the three parts match in sequence: the text of the group, and what is
  left after the match.\<close>

definition match_group :: "regex \<Rightarrow> regex \<Rightarrow> regex \<Rightarrow> string \<Rightarrow> (string \<times> string) option" where
  "match_group pre grp post s =
     (case concat (map (\<lambda>r1. concat (map (\<lambda>r2.
              map (\<lambda>r3. (take (length r1 - length r2) r1, r3)) (rmatch post r2))
            (rmatch grp r1))) (rmatch pre s)) of
        [] \<Rightarrow> None
      | h # _ \<Rightarrow> Some h)"

text \<open>The end of a match: what is left of the text after it.\<close>

definition match_end :: "regex \<Rightarrow> string \<Rightarrow> (string \<times> string) option" where
  "match_end r s = (case rmatch r s of [] \<Rightarrow> None | rest # _ \<Rightarrow> Some (rest, rest))"

section \<open>The parser: \<^verbatim>\<open>MolecularFileParser\<close>\<close>

record AtomCoordinate =
  element :: string
  x :: pyfloat
  y :: pyfloat
  z :: pyfloat

definition ELEMENT_MAP :: "(int \<times> string) list" where
  "ELEMENT_MAP =
    [(1, ''H''), (2, ''He''), (3, ''Li''), (4, ''Be''), (5, ''B''), (6, ''C''), (7, ''N''),
     (8, ''O''), (9, ''F''), (10, ''Ne''), (11, ''Na''), (12, ''Mg''), (13, ''Al''),
     (14, ''Si''), (15, ''P''), (16, ''S''), (17, ''Cl''), (18, ''Ar''), (19, ''K''),
     (20, ''Ca''), (21, ''Sc''), (22, ''Ti''), (23, ''V''), (24, ''Cr''), (25, ''Mn''),
     (26, ''Fe''), (27, ''Co''), (28, ''Ni''), (29, ''Cu''), (30, ''Zn''), (31, ''Ga''),
     (32, ''Ge''), (33, ''As''), (34, ''Se''), (35, ''Br''), (36, ''Kr''), (37, ''Rb''),
     (38, ''Sr''), (39, ''Y''), (40, ''Zr''), (41, ''Nb''), (42, ''Mo''), (43, ''Tc''),
     (44, ''Ru''), (45, ''Rh''), (46, ''Pd''), (47, ''Ag''), (48, ''Cd''), (49, ''In''),
     (50, ''Sn''), (51, ''Sb''), (52, ''Te''), (53, ''I''), (54, ''Xe''), (55, ''Cs''),
     (56, ''Ba''), (57, ''La''), (58, ''Ce''), (59, ''Pr''), (60, ''Nd''), (61, ''Pm''),
     (62, ''Sm''), (63, ''Eu''), (64, ''Gd''), (65, ''Tb''), (66, ''Dy''), (67, ''Ho''),
     (68, ''Er''), (69, ''Tm''), (70, ''Yb''), (71, ''Lu''), (72, ''Hf''), (73, ''Ta''),
     (74, ''W''), (75, ''Re''), (76, ''Os''), (77, ''Ir''), (78, ''Pt''), (79, ''Au''),
     (80, ''Hg''), (81, ''Tl''), (82, ''Pb''), (83, ''Bi''), (84, ''Po''), (85, ''At''),
     (86, ''Rn''), (87, ''Fr''), (88, ''Ra''), (89, ''Ac''), (90, ''Th''), (91, ''Pa''),
     (92, ''U''), (93, ''Np''), (94, ''Pu''), (95, ''Am''), (96, ''Cm''), (97, ''Bk''),
     (98, ''Cf''), (99, ''Es''), (100, ''Fm''), (101, ''Md''), (102, ''No''),
     (103, ''Lr''), (104, ''Rf''), (105, ''Db''), (106, ''Sg''), (107, ''Bh''),
     (108, ''Hs''), (109, ''Mt''), (110, ''Ds''), (111, ''Rg''), (112, ''Cn''),
     (113, ''Nh''), (114, ''Fl''), (115, ''Mc''), (116, ''Lv''), (117, ''Ts''),
     (118, ''Og'')]"

definition get_element_symbol :: "int \<Rightarrow> string" where
  "get_element_symbol atomic_number =
     (case map_of ELEMENT_MAP atomic_number of Some s \<Rightarrow> s | None \<Rightarrow> py_str atomic_number)"

subsection \<open>Line classifiers\<close>

definition parse_coordinate_line :: "string \<Rightarrow> exn + AtomCoordinate option" where
  "parse_coordinate_line line =
     (let parts = py_split line in
      if length parts \<ge> 6 then
        try_except
          (bind (bind (getitem parts 1) py_int) (\<lambda>atomic_num.
           bind (bind (getitem parts 3) py_float) (\<lambda>x_coord.
           bind (bind (getitem parts 4) py_float) (\<lambda>y_coord.
           bind (bind (getitem parts 5) py_float) (\<lambda>z_coord.
             Inr (Some \<lparr>element = get_element_symbol atomic_num,
                         x = x_coord, y = y_coord, z = z_coord\<rparr>))))))
          [ValueError, IndexError] (\<lambda>e. Inr None)
      else Inr None)"

definition parse_input_coordinate_line :: "string \<Rightarrow> exn + AtomCoordinate option" where
  "parse_input_coordinate_line line =
     (let parts = py_split line in
      if length parts \<ge> 4 then
        try_except
          (bind (getitem parts 0) (\<lambda>p0.
             let element_symbol = py_strip p0 in
             if \<not> re_match ELEMENT_RE element_symbol then Inr None
             else
               bind (bind (getitem parts 1) py_float) (\<lambda>x_coord.
               bind (bind (getitem parts 2) py_float) (\<lambda>y_coord.
               bind (bind (getitem parts 3) py_float) (\<lambda>z_coord.
                 Inr (Some \<lparr>element = element_symbol,
                             x = x_coord, y = y_coord, z = z_coord\<rparr>))))))
          [ValueError, IndexError] (\<lambda>e. Inr None)
      else Inr None)"

subsection \<open>Files\<close>

text \<open>
  What a path holds: a file that cannot be opened or read (the exception it raises), or
  the bytes of a file. Text mode translates \<^verbatim>\<open>\r\n\<close> and \<^verbatim>\<open>\r\<close> to \<^verbatim>\<open>\n\<close>.
\<close>

datatype pyfile = Unreadable exn | Bytes string

fun universal_newlines :: "string \<Rightarrow> string" where
  "universal_newlines (c # d # cs) =
     (if c = CHR 0x0D then (if d = NL then NL # universal_newlines cs
                            else NL # universal_newlines (d # cs))
      else c # universal_newlines (d # cs))"
| "universal_newlines [c] = (if c = CHR 0x0D then [NL] else [c])"
| "universal_newlines [] = []"

text \<open>\<^verbatim>\<open>file_path.read_text(encoding='utf-8')\<close>\<close>

definition read_text :: "pyfile \<Rightarrow> exn + string" where
  "read_text f = (case f of Unreadable e \<Rightarrow> Inl e | Bytes b \<Rightarrow> Inr (universal_newlines b))"

text \<open>Both handlers return \<^verbatim>\<open>None\<close>.\<close>

definition read_file_content :: "pyfile \<Rightarrow> exn + string option" where
  "read_file_content f =
     try_except (bind (read_text f) (\<lambda>c. Inr (Some c)))
       [FileNotFoundError, Exception] (\<lambda>e. Inr None)"

text \<open>The text the termination check reads: the file from \<open>file_size - buffer_size\<close> on.\<close>

definition tail_text :: "string \<Rightarrow> string" where
  "tail_text b =
     (let file_size = int (length b);
          buffer_size = min 1000 file_size
      in universal_newlines (slice_from b (max 0 (file_size - buffer_size))))"

definition check_normal_termination :: "pyfile \<Rightarrow> exn + bool" where
  "check_normal_termination f =
     try_except
       (case f of
          Unreadable e \<Rightarrow> Inl e
        | Bytes b \<Rightarrow>
            (let content_at_end = tail_text b;
                 lines = split_on NL (py_strip content_at_end);
                 last_line = (if lines \<noteq> [] then last lines else [])
             in Inr (contains ''Normal termination'' last_line)))
       [Exception] (\<lambda>e. Inr False)"

subsection \<open>The punch string\<close>

text \<open>The loop over the reversed lines: the punch lines found so far, and whether one has
  been found.\<close>

fun punch_scan :: "string list \<Rightarrow> string list \<Rightarrow> bool \<Rightarrow> string list" where
  "punch_scan [] punch_lines found = punch_lines"
| "punch_scan (l # ls) punch_lines found =
     (let line = py_strip l in
      if line = [] then (if found then punch_lines else punch_scan ls punch_lines found)
      else if BSL \<in> set line then punch_scan ls (punch_lines @ [line]) True
      else if found then punch_lines
      else punch_scan ls punch_lines found)"

definition punch_marker :: string where
  "punch_marker = ''The archive entry for this job was punched.''"

definition find_punch_string :: "string \<Rightarrow> string option" where
  "find_punch_string content =
     (if \<not> contains punch_marker content then None
      else
        let punch_end_index = py_find punch_marker content;
            lines_before_marker = split_on NL (py_strip (slice_to content punch_end_index));
            punch_lines = punch_scan (rev lines_before_marker) [] False
        in if punch_lines = [] then None else Some (concat (rev punch_lines)))"

text \<open>The body of the \<^verbatim>\<open>try\<close> for one entry; \<^verbatim>\<open>None\<close> is the \<^verbatim>\<open>continue\<close>.\<close>

definition parse_punch_entry :: "string list \<Rightarrow> exn + AtomCoordinate option" where
  "parse_punch_entry parts =
     try_except
       (bind (getitem parts 0) (\<lambda>p0.
          let element_symbol = py_strip p0;
              coords =
                bind (bind (getitem parts 1) py_float) (\<lambda>x_coord.
                bind (bind (getitem parts 2) py_float) (\<lambda>y_coord.
                bind (bind (getitem parts 3) py_float) (\<lambda>z_coord.
                  Inr (Some \<lparr>element = element_symbol,
                              x = x_coord, y = y_coord, z = z_coord\<rparr>))))
          in if \<not> re_match ELEMENT_TAG_RE element_symbol
             then (if \<not> re_match ELEMENT_RE element_symbol then Inr None else coords)
             else coords))
       [ValueError] (\<lambda>e. Inr None)"

fun punch_entries :: "string list \<Rightarrow> AtomCoordinate list \<Rightarrow> exn + AtomCoordinate list" where
  "punch_entries [] coordinates_found = Inr coordinates_found"
| "punch_entries (entry_str # rest) coordinates_found =
     (if entry_str = [] then punch_entries rest coordinates_found
      else
        let parts = split_on (CHR '','') entry_str in
        if length parts = 4 then
          (case parse_punch_entry parts of
             Inl e \<Rightarrow> Inl e
           | Inr None \<Rightarrow> punch_entries rest coordinates_found
           | Inr (Some c) \<Rightarrow> punch_entries rest (coordinates_found @ [c]))
        else punch_entries rest coordinates_found)"

definition extract_from_punch :: "string \<Rightarrow> exn + AtomCoordinate list" where
  "extract_from_punch content =
     (case find_punch_string content of
        None \<Rightarrow> Inr []
      | Some punch_string \<Rightarrow>
          if punch_string = [] then Inr []
          else
            let punch_no_space = filter (\<lambda>c. \<not> isspace c) punch_string;
                punch_sections = split_on2 BSL BSL punch_no_space
            in if length punch_sections < 4 then Inr []
               else
                 bind (getitem punch_sections 3) (\<lambda>coordinate_data_string.
                   if coordinate_data_string = [] then Inr []
                   else punch_entries (split_on BSL coordinate_data_string) []))"

subsection \<open>Standard orientation\<close>

definition header_keywords :: "string list" where
  "header_keywords = [''Center'', ''Number'', ''Atomic'', ''Coordinates'', ''Type'']"

definition is_dash_line :: "string \<Rightarrow> bool" where
  "is_dash_line line = (contains ''-----'' line \<and> length line > 20)"

fun orientation_scan ::
  "string list \<Rightarrow> nat \<Rightarrow> AtomCoordinate list \<Rightarrow> exn + AtomCoordinate list" where
  "orientation_scan [] dash_line_count coordinates_found = Inr coordinates_found"
| "orientation_scan (l # ls) dash_line_count coordinates_found =
     (let line = py_strip l in
      if is_dash_line line then orientation_scan ls (dash_line_count + 1) coordinates_found
      else if line = [] then orientation_scan ls dash_line_count coordinates_found
      else if dash_line_count = 1 \<and> list_ex (\<lambda>k. contains k line) header_keywords
      then orientation_scan ls dash_line_count coordinates_found
      else if dash_line_count = 2 then
        (case parse_coordinate_line line of
           Inl e \<Rightarrow> Inl e
         | Inr None \<Rightarrow> orientation_scan ls dash_line_count coordinates_found
         | Inr (Some c) \<Rightarrow> orientation_scan ls dash_line_count (coordinates_found @ [c]))
      else if dash_line_count \<ge> 3 then Inr coordinates_found
      else orientation_scan ls dash_line_count coordinates_found)"

definition extract_from_standard_orientation :: "string \<Rightarrow> exn + AtomCoordinate list" where
  "extract_from_standard_orientation content =
     (let matches = finditer (match_end STD_ORIENT_RE) content in
      if matches = [] then Inr []
      else
        let section_content = last matches;
            lines_in_section = split_on NL section_content
        in orientation_scan lines_in_section 0 [])"

subsection \<open>Gaussian input\<close>

text \<open>The first loop: the index after the first charge and multiplicity line, or \<open>-1\<close>.\<close>

fun find_chg_mult :: "string list \<Rightarrow> int \<Rightarrow> int" where
  "find_chg_mult [] i = -1"
| "find_chg_mult (line_content # ls) i =
     (if re_match CHG_MULT_RE (py_strip line_content) then i + 1
      else find_chg_mult ls (i + 1))"

text \<open>The second loop, over the lines from that index on.\<close>

fun input_scan :: "string list \<Rightarrow> AtomCoordinate list \<Rightarrow> exn + AtomCoordinate list" where
  "input_scan [] coordinates_found = Inr coordinates_found"
| "input_scan (l # ls) coordinates_found =
     (let current_line_stripped = py_strip l in
      if current_line_stripped = [] then Inr coordinates_found
      else
        (case parse_input_coordinate_line current_line_stripped of
           Inl e \<Rightarrow> Inl e
         | Inr (Some c) \<Rightarrow> input_scan ls (coordinates_found @ [c])
         | Inr None \<Rightarrow> Inr coordinates_found))"

definition extract_from_input_file :: "string \<Rightarrow> exn + AtomCoordinate list" where
  "extract_from_input_file content =
     (let lines = split_on NL content;
          coord_section_start_line_idx = find_chg_mult lines 0
      in if coord_section_start_line_idx = -1 then Inr []
         else input_scan (slice_from lines coord_section_start_line_idx) [])"

subsection \<open>MOLPRO\<close>

definition starts_with_any :: "string \<Rightarrow> string \<Rightarrow> bool" where
  "starts_with_any cs s = (case s of [] \<Rightarrow> False | c # _ \<Rightarrow> c \<in> set cs)"

fun molpro_lines :: "string list \<Rightarrow> AtomCoordinate list \<Rightarrow> exn + AtomCoordinate list" where
  "molpro_lines [] current_block_coords = Inr current_block_coords"
| "molpro_lines (line_content # ls) current_block_coords =
     (let line_stripped = py_strip line_content in
      if line_stripped = [] \<or> starts_with_any ''#!*'' line_stripped
      then molpro_lines ls current_block_coords
      else if py_lower line_stripped \<in> set [''angstrom'', ''bohr'', ''au'', ''symmetry'']
              \<or> CHR ''='' \<in> set line_stripped
      then molpro_lines ls current_block_coords
      else
        (case parse_input_coordinate_line line_stripped of
           Inl e \<Rightarrow> Inl e
         | Inr (Some c) \<Rightarrow> molpro_lines ls (current_block_coords @ [c])
         | Inr None \<Rightarrow> molpro_lines ls current_block_coords))"

definition molpro_block :: "string \<Rightarrow> exn + AtomCoordinate list" where
  "molpro_block block_content_str = molpro_lines (split_on NL (py_strip block_content_str)) []"

fun molpro_blocks :: "string list \<Rightarrow> exn + AtomCoordinate list" where
  "molpro_blocks [] = Inr []"
| "molpro_blocks (b # bs) =
     (case molpro_block b of
        Inl e \<Rightarrow> Inl e
      | Inr current_block_coords \<Rightarrow>
          if current_block_coords \<noteq> [] then Inr current_block_coords else molpro_blocks bs)"

text \<open>The group of every match of the geometry pattern, in document order.\<close>

definition geom_blocks :: "string \<Rightarrow> string list" where
  "geom_blocks content = finditer (match_group GEOM_PRE_RE GEOM_BODY_RE GEOM_POST_RE) content"

definition extract_from_molpro_file :: "string \<Rightarrow> exn + AtomCoordinate list" where
  "extract_from_molpro_file content = molpro_blocks (geom_blocks content)"

subsection \<open>File types and the coordinator\<close>

text \<open>\<^verbatim>\<open>file_path.suffix\<close> of a POSIX path: the last component from its last dot on, unless
  that dot starts or ends the component.\<close>

definition path_name :: "string \<Rightarrow> string" where
  "path_name p = rev (takeWhile (\<lambda>c. c \<noteq> CHR ''/'') (rev p))"

definition path_suffix :: "string \<Rightarrow> string" where
  "path_suffix p =
     (let name = path_name p;
          ext = rev (takeWhile (\<lambda>c. c \<noteq> CHR ''.'') (rev name))
      in if CHR ''.'' \<in> set name \<and> ext \<noteq> [] \<and> length ext + 1 < length name
         then CHR ''.'' # ext else [])"

definition is_gaussian_input_file :: "string \<Rightarrow> bool" where
  "is_gaussian_input_file file_path = (py_lower (path_suffix file_path) = ''.com'')"

definition is_gaussian_log_file :: "string \<Rightarrow> bool" where
  "is_gaussian_log_file file_path = (py_lower (path_suffix file_path) = ''.log'')"

definition is_molpro_file :: "string \<Rightarrow> bool" where
  "is_molpro_file file_path = (py_lower (path_suffix file_path) \<in> set [''.in'', ''.out''])"

definition detect_file_type :: "string \<Rightarrow> string" where
  "detect_file_type file_path =
     (if is_gaussian_input_file file_path then ''gaussian_input''
      else if is_gaussian_log_file file_path then ''gaussian_log''
      else if is_molpro_file file_path then ''molpro''
      else ''unknown'')"

text \<open>
  The coordinator, with the strategy routines it calls, in call order, beside its result.
  The file system gives what each path holds.
\<close>

datatype strategy = GaussianInput | Punch | StandardOrientation | Molpro

definition extract_coordinates_run ::
  "(string \<Rightarrow> pyfile) \<Rightarrow> string \<Rightarrow> strategy list \<times> (exn + AtomCoordinate list)" where
  "extract_coordinates_run fs file_path =
     (case read_file_content (fs file_path) of
        Inl e \<Rightarrow> ([], Inl e)
      | Inr None \<Rightarrow> ([], Inr [])
      | Inr (Some content) \<Rightarrow>
          let file_type = detect_file_type file_path in
          if file_type = ''gaussian_input''
          then ([GaussianInput], extract_from_input_file content)
          else if file_type = ''gaussian_log'' then
            (case check_normal_termination (fs file_path) of
               Inl e \<Rightarrow> ([], Inl e)
             | Inr normal_termination \<Rightarrow>
                 if normal_termination then
                   (case extract_from_punch content of
                      Inl e \<Rightarrow> ([Punch], Inl e)
                    | Inr coordinates_extracted \<Rightarrow>
                        if coordinates_extracted = []
                        then ([Punch, StandardOrientation],
                              extract_from_standard_orientation content)
                        else ([Punch], Inr coordinates_extracted))
                 else ([StandardOrientation], extract_from_standard_orientation content))
          else if file_type = ''molpro'' then ([Molpro], extract_from_molpro_file content)
          else if file_type = ''unknown'' then ([], Inr [])
          else ([], Inr []))"

definition extract_coordinates :: "(string \<Rightarrow> pyfile) \<Rightarrow> string \<Rightarrow> exn + AtomCoordinate list" where
  "extract_coordinates fs file_path = snd (extract_coordinates_run fs file_path)"

section \<open>The formula generator: \<^verbatim>\<open>MolecularFormulaGenerator\<close>\<close>

definition normalize_symbol :: "string \<Rightarrow> string" where
  "normalize_symbol element_symbol =
     (if length element_symbol > 1
      then py_upper [hd element_symbol] @ py_lower (tl element_symbol)
      else py_upper element_symbol)"

text \<open>The dictionary \<^verbatim>\<open>atom_count\<close>, in insertion order.\<close>

definition count_atom :: "(string \<times> int) list \<Rightarrow> AtomCoordinate \<Rightarrow> (string \<times> int) list" where
  "count_atom atom_count coord =
     (let element_symbol = normalize_symbol (element coord)
      in AList.update element_symbol
           ((case map_of atom_count element_symbol of None \<Rightarrow> 0 | Some n \<Rightarrow> n) + 1)
           atom_count)"

definition preferred_order :: "(string \<times> enat) list" where
  "preferred_order = [(''C'', 0), (''H'', 1)]"

definition hill_key :: "string \<Rightarrow> enat \<times> string" where
  "hill_key el_symbol =
     ((case map_of preferred_order el_symbol of Some r \<Rightarrow> r | None \<Rightarrow> \<infinity>), el_symbol)"



section \<open>Specification-side notions\<close>


definition sorted_elements :: "AtomCoordinate list \<Rightarrow> string list" where
  "sorted_elements cs = sort_key hill_key (map fst (foldl count_atom [] cs))"

text \<open>What the "Element X Y Z" classifier makes of a line: a match or none.\<close>

definition line_match :: "string \<Rightarrow> AtomCoordinate option" where
  "line_match s = (case parse_input_coordinate_line s of Inl e \<Rightarrow> None | Inr r \<Rightarrow> r)"

text \<open>A line of the charge and multiplicity shape.\<close>

definition is_charge_multiplicity :: "string \<Rightarrow> bool" where
  "is_charge_multiplicity l = re_match CHG_MULT_RE (py_strip l)"

text \<open>A Gaussian input file.\<close>

definition sample_com :: string where
  "sample_com =
     ''# HF/STO-3G'' @ [NL] @ [NL] @ ''title 1 2'' @ [NL] @ [NL] @ ''0 1'' @ [NL]
     @ ''C 0.0 0.0 1.1'' @ [NL] @ ''H 0.0 0.0 0.0'' @ [NL] @ [NL] @ ''O 1.0 1.0 1.0'' @ [NL]"

text \<open>
  The standard-orientation block, as the specification describes it: a structural
  delimiter is a line whose stripped text holds five dashes in a row and is longer than 20
  characters; the data zone is what lies between the second delimiter and the third (or
  the end of the text); a line contributes the coordinate the center-line classifier
  makes of it.
\<close>

definition is_delimiter :: "string \<Rightarrow> bool" where
  "is_delimiter l = is_dash_line (py_strip l)"

definition after_delimiter :: "string list \<Rightarrow> string list" where
  "after_delimiter ls = (case dropWhile (\<lambda>l. \<not> is_delimiter l) ls of [] \<Rightarrow> [] | _ # r \<Rightarrow> r)"

definition data_zone :: "string list \<Rightarrow> string list" where
  "data_zone ls = takeWhile (\<lambda>l. \<not> is_delimiter l) (after_delimiter (after_delimiter ls))"

definition center_match :: "string \<Rightarrow> AtomCoordinate option" where
  "center_match s = (case parse_coordinate_line s of Inl e \<Rightarrow> None | Inr r \<Rightarrow> r)"

definition centers :: "string list \<Rightarrow> AtomCoordinate list" where
  "centers ls =
     map (\<lambda>l. the (center_match (py_strip l)))
       (filter (\<lambda>l. py_strip l \<noteq> [] \<and> center_match (py_strip l) \<noteq> None) ls)"

text \<open>
  The lines of a text that are not blank (a line is blank, or empty, when it holds nothing
  but whitespace), and whether the last of them contains \<^verbatim>\<open>Normal termination\<close>.
\<close>

definition nonblank_lines :: "string \<Rightarrow> string list" where
  "nonblank_lines t = filter (\<lambda>l. py_strip l \<noteq> []) (split_on NL t)"

definition tail_terminated :: "string \<Rightarrow> bool" where
  "tail_terminated t =
     (nonblank_lines t \<noteq> [] \<and> contains ''Normal termination'' (last (nonblank_lines t)))"

text \<open>A log with two standard-orientation blocks: hydrogen in the first, carbon in the
  second, whose heading has two spaces between the words.\<close>

definition dash_line :: string where
  "dash_line = '' ---------------------''"

definition two_orientations :: string where
  "two_orientations =
     '' Standard orientation:'' @ [NL] @ dash_line @ [NL] @ '' Center Number'' @ [NL]
     @ dash_line @ [NL] @ '' 1 1 0 0.0 0.0 0.5'' @ [NL] @ dash_line @ [NL]
     @ '' Standard  orientation:'' @ [NL] @ dash_line @ [NL] @ '' Center Number'' @ [NL]
     @ dash_line @ [NL] @ '' 1 6 0 0.0 0.0 1.1'' @ [NL] @ dash_line @ [NL] @ '' 2 1 0 9 9 9''"

text \<open>The claim read to the letter: the phrase is \<^verbatim>\<open>standard orientation:\<close> with one
  space, matched without regard to case.\<close>

definition STD_ORIENT_PHRASE :: regex where
  "STD_ORIENT_PHRASE = lit_ci ''standard orientation:''"

definition extract_after_phrase :: "string \<Rightarrow> exn + AtomCoordinate list" where
  "extract_after_phrase content =
     (let matches = finditer (match_end STD_ORIENT_PHRASE) content in
      if matches = [] then Inr []
      else Inr (centers (data_zone (split_on NL (last matches)))))"

text \<open>A log whose tail ends in blank lines.\<close>

definition sample_tail :: string where
  "sample_tail = '' Job cpu time: 1.0'' @ [NL] @ '' Normal termination of Gaussian 16.''
     @ [NL] @ ''  '' @ [NL]"

text \<open>A Gaussian log that terminated normally, with its archive entry; the same log
  followed by 1000 spaces; and the coordinate section of the claim.\<close>

definition punch_log :: string where
  "punch_log =
     '' Test job'' @ [NL] @ '' 1'' @ [BSL] @ ''1'' @ [BSL] @ ''GINC'' @ [BSL] @ ''SP''
     @ [BSL] @ ''RHF'' @ [BSL] @ ''STO-3G'' @ [BSL] @ ''CH1'' @ [BSL, BSL] @ ''# HF''
     @ [BSL, BSL] @ ''title'' @ [BSL, BSL] @ ''C,0.,0.,1'' @ [NL] @ '' .1'' @ [BSL]
     @ ''H,0.,0.,0.'' @ [BSL, BSL] @ ''Version=1'' @ [BSL, BSL] @ ''@'' @ [NL, NL]
     @ '' The archive entry for this job was punched.'' @ [NL]
     @ '' Normal termination of Gaussian 16.'' @ [NL]"

definition blank_tail :: string where
  "blank_tail = replicate 1000 (CHR '' '')"

definition long_log :: string where
  "long_log = punch_log @ blank_tail"




section \<open>Evaluation\<close>

lemma float_of_rat_small: "\<bar>r\<bar> \<le> 1000000 \<Longrightarrow> float_of_rat r = Finite r"
proof -
  assume a: "\<bar>r\<bar> \<le> 1000000"
  have "(1000000::rat) < 2 ^ 20" by simp
  also have "(2::rat) ^ 20 \<le> 2 ^ 970" by (rule power_increasing) simp_all
  also have "(2::rat) ^ 970 \<le> 2 ^ 1024 - 2 ^ 970"
  proof -
    have "(2::rat) ^ 970 * 2 \<le> 2 ^ 970 * 2 ^ 54" by (intro mult_left_mono) simp_all
    then have "(2::rat) ^ 970 + 2 ^ 970 \<le> 2 ^ (970 + 54)"
      by (simp only: power_add mult_2_right)
    then show ?thesis by simp
  qed
  finally show ?thesis using a by (simp add: float_of_rat_def)
qed

lemmas char_defs = isspace_def isdigit_def isalpha_def isalnum_def lower_char_def upper_char_def
  ascii_uppercase_def ascii_lowercase_def py_lower_def py_upper_def is_sign_def
lemmas str_defs = py_strip_def py_split_def py_find_def
lemmas num_defs = py_float_def py_int_def split_sign_def parse_floatnumber_def parse_number_def
  parse_exponent_def valid_digitpart_def digitpart_value_def digits_value_def digit_value_def
  scale10_def float_of_rat_small py_str_def digit_chars_def
lemmas exn_defs = bind_def try_except_def isinstance_def getitem_def
lemmas re_defs = re_match_def ELEMENT_RE_def ELEMENT_TAG_RE_def CHG_MULT_RE_def lit_ci_def
  match_group_def match_end_def GEOM_PRE_RE_def GEOM_BODY_RE_def GEOM_POST_RE_def STD_ORIENT_RE_def
lemmas ev = char_defs str_defs num_defs exn_defs re_defs Let_def

section \<open>The formula generator\<close>



lemma keys_count_atom:
  "fst ` set (count_atom ac c) = insert (normalize_symbol (element c)) (fst ` set ac)"
  by (simp add: count_atom_def Let_def dom_update)

lemma distinct_count_atom:
  "distinct (map fst ac) \<Longrightarrow> distinct (map fst (count_atom ac c))"
  by (simp add: count_atom_def Let_def distinct_update)

lemma keys_tally:
  "fst ` set (foldl count_atom ac cs) = fst ` set ac \<union> (\<lambda>c. normalize_symbol (element c)) ` set cs"
  by (induction cs arbitrary: ac) (auto simp: keys_count_atom)

lemma distinct_tally:
  "distinct (map fst ac) \<Longrightarrow> distinct (map fst (foldl count_atom ac cs))"
  by (induction cs arbitrary: ac) (auto simp: distinct_count_atom)






lemma sorted_elements_props:
  "set (sorted_elements cs) = (\<lambda>c. normalize_symbol (element c)) ` set cs"
  "distinct (sorted_elements cs)"
  "sorted (map hill_key (sorted_elements cs))"
  using keys_tally[of "[]" cs] distinct_tally[of "[]" cs]
  by (simp_all add: sorted_elements_def)

lemma py_float_Inl: "py_float s = Inl e \<Longrightarrow> e = ValueError"
  by (auto simp: py_float_def split: prod.splits if_splits option.splits)

lemma py_int_Inl: "py_int s = Inl e \<Longrightarrow> e = ValueError"
  by (auto simp: py_int_def split: prod.splits if_splits)

lemma split_words_tokens:
  "t \<in> set (split_words cur s) \<Longrightarrow> list_all (\<lambda>c. \<not> isspace c) cur
     \<Longrightarrow> t \<noteq> [] \<and> list_all (\<lambda>c. \<not> isspace c) t"
  by (induction cur s rule: split_words.induct) (auto split: if_splits)

lemma py_split_tokens:
  "t \<in> set (py_split s) \<Longrightarrow> t \<noteq> [] \<and> list_all (\<lambda>c. \<not> isspace c) t"
  using split_words_tokens[of t "[]" s] by (simp add: py_split_def)

lemma dropWhile_hd: "xs = [] \<or> \<not> P (hd xs) \<Longrightarrow> dropWhile P xs = xs"
  by (cases xs) auto

lemma py_strip_no_space: "list_all (\<lambda>c. \<not> isspace c) t \<Longrightarrow> py_strip t = t"
proof -
  assume a: "list_all (\<lambda>c. \<not> isspace c) t"
  then have 1: "dropWhile isspace t = t" by (cases t) auto
  from a have "list_all (\<lambda>c. \<not> isspace c) (rev t)" by (simp add: list_all_iff)
  then have 2: "dropWhile isspace (rev t) = rev t" by (cases "rev t") auto
  show ?thesis by (simp add: py_strip_def 1 2)
qed

lemma py_strip_token: "i < length (py_split s) \<Longrightarrow> py_strip (py_split s ! i) = py_split s ! i"
  using py_split_tokens[of "py_split s ! i" s] py_strip_no_space by auto

lemma bind_Inr: "bind (Inr v) f = f v"
  by (simp add: bind_def)

lemma bind_Inl: "bind (Inl e) f = Inl e"
  by (simp add: bind_def)

lemma try_except_Inr: "try_except (Inr v) cls h = Inr v"
  by (simp add: try_except_def)

lemma try_except_Inl: "isinstance e cls \<Longrightarrow> try_except (Inl e) cls h = h e"
  by (simp add: try_except_def)

lemma getitem_in: "0 \<le> i \<Longrightarrow> nat i < length xs \<Longrightarrow> getitem xs i = Inr (xs ! nat i)"
  by (auto simp: getitem_def Let_def)

lemma catch_bind:
  assumes "isinstance ValueError cls" and "\<And>e. f = Inl e \<Longrightarrow> e = ValueError"
  shows "try_except (bind f k) cls (\<lambda>e. Inr None) =
           (if isl f then Inr None else try_except (k (projr f)) cls (\<lambda>e. Inr None))"
  using assms by (cases f) (auto simp: bind_Inr bind_Inl try_except_Inl)

lemma parse_input_coordinate_line_eq:
  "parse_input_coordinate_line line =
     (let parts = py_split line in
      if 4 \<le> length parts \<and> re_match ELEMENT_RE (parts ! 0)
         \<and> \<not> isl (py_float (parts ! 1)) \<and> \<not> isl (py_float (parts ! 2))
         \<and> \<not> isl (py_float (parts ! 3))
      then Inr (Some \<lparr>element = parts ! 0, x = projr (py_float (parts ! 1)),
                         y = projr (py_float (parts ! 2)), z = projr (py_float (parts ! 3))\<rparr>)
      else Inr None)"
proof (cases "4 \<le> length (py_split line)")
  case False
  then show ?thesis by (simp add: parse_input_coordinate_line_def Let_def)
next
  case True
  then have s: "py_strip (py_split line ! 0) = py_split line ! 0"
    by (intro py_strip_token) auto
  have v: "isinstance ValueError [ValueError, IndexError]" by (simp add: isinstance_def)
  note c = catch_bind[OF v py_float_Inl]
  have g: "getitem (py_split line) 0 = Inr (py_split line ! 0)"
    "getitem (py_split line) 1 = Inr (py_split line ! 1)"
    "getitem (py_split line) 2 = Inr (py_split line ! 2)"
    "getitem (py_split line) 3 = Inr (py_split line ! 3)"
    using True by (auto simp: getitem_def Let_def)
  show ?thesis
    using True
    by (simp add: parse_input_coordinate_line_def Let_def g bind_Inr s c try_except_Inr)
qed

lemma re_match_iff: "re_match r s = (rmatch r s \<noteq> [])"
  by (simp add: re_match_def split: list.splits)

lemma strict_imp_tagged: "re_match ELEMENT_RE s \<Longrightarrow> re_match ELEMENT_TAG_RE s"
proof -
  assume "re_match ELEMENT_RE s"
  then obtain r where r: "r \<in> set (rmatch (Plus isalpha) s)" "rmatch Dollar r \<noteq> []"
    unfolding re_match_iff ELEMENT_RE_def by (auto simp del: rmatch.simps(6,8) simp: rmatch.simps(2))
  then show ?thesis
    unfolding re_match_iff ELEMENT_TAG_RE_def
    by (auto simp del: rmatch.simps(6,8) simp: rmatch.simps(2,4) intro!: bexI[of _ r])
qed


lemma parse_punch_entry_eq:
  "length parts = 4 \<Longrightarrow>
   parse_punch_entry parts =
     (if re_match ELEMENT_TAG_RE (py_strip (parts ! 0))
         \<and> \<not> isl (py_float (parts ! 1)) \<and> \<not> isl (py_float (parts ! 2))
         \<and> \<not> isl (py_float (parts ! 3))
      then Inr (Some \<lparr>element = py_strip (parts ! 0), x = projr (py_float (parts ! 1)),
                         y = projr (py_float (parts ! 2)), z = projr (py_float (parts ! 3))\<rparr>)
      else Inr None)"
proof -
  assume len: "length parts = 4"
  have v: "isinstance ValueError [ValueError]" by (simp add: isinstance_def)
  note c = catch_bind[OF v py_float_Inl]
  have g: "getitem parts 0 = Inr (parts ! 0)" "getitem parts 1 = Inr (parts ! 1)"
    "getitem parts 2 = Inr (parts ! 2)" "getitem parts 3 = Inr (parts ! 3)"
    using len by (auto simp: getitem_def Let_def)
  show ?thesis
  proof (cases "re_match ELEMENT_TAG_RE (py_strip (parts ! 0))")
    case True
    then show ?thesis
      by (simp add: parse_punch_entry_def Let_def g bind_Inr c try_except_Inr)
  next
    case False
    with strict_imp_tagged have "\<not> re_match ELEMENT_RE (py_strip (parts ! 0))" by blast
    with False show ?thesis
      by (simp add: parse_punch_entry_def Let_def g bind_Inr try_except_Inr)
  qed
qed

lemma parse_coordinate_line_eq:
  "parse_coordinate_line line =
     (let parts = py_split line in
      if 6 \<le> length parts \<and> \<not> isl (py_int (parts ! 1))
         \<and> \<not> isl (py_float (parts ! 3)) \<and> \<not> isl (py_float (parts ! 4))
         \<and> \<not> isl (py_float (parts ! 5))
      then Inr (Some \<lparr>element = get_element_symbol (projr (py_int (parts ! 1))),
                         x = projr (py_float (parts ! 3)),
                         y = projr (py_float (parts ! 4)), z = projr (py_float (parts ! 5))\<rparr>)
      else Inr None)"
proof (cases "6 \<le> length (py_split line)")
  case False
  then show ?thesis by (simp add: parse_coordinate_line_def Let_def)
next
  case True
  have v: "isinstance ValueError [ValueError, IndexError]" by (simp add: isinstance_def)
  note c = catch_bind[OF v py_float_Inl] catch_bind[OF v py_int_Inl]
  have g: "getitem (py_split line) 1 = Inr (py_split line ! 1)"
    "getitem (py_split line) 3 = Inr (py_split line ! 3)"
    "getitem (py_split line) 4 = Inr (py_split line ! 4)"
    "getitem (py_split line) 5 = Inr (py_split line ! 5)"
    using True by (auto simp: getitem_def Let_def)
  show ?thesis
    using True
    by (simp add: parse_coordinate_line_def Let_def g bind_Inr c try_except_Inr)
qed

lemma molpro_blocks_second:
  "molpro_block b1 = Inr [] \<Longrightarrow> molpro_block b2 = Inr cs \<Longrightarrow> cs \<noteq> []
     \<Longrightarrow> molpro_blocks [b1, b2] = Inr cs"
  by simp

section \<open>Claims\<close>



text \<open>
  C6 (as amended). The "Element X Y Z" classifier returns a match exactly when the line
  splits on whitespace into at least four tokens, the first token matches
  \<^verbatim>\<open>^[A-Za-z]+$\<close>, and each of the next three tokens is accepted by \<^verbatim>\<open>float()\<close>; the
  match carries the first token and the three values. \<^verbatim>\<open>float()\<close> accepts the
  non-finite literals \<^verbatim>\<open>inf\<close>, \<^verbatim>\<open>infinity\<close> and \<^verbatim>\<open>nan\<close>, so the values need not be
  finite. Every violation, such as the numeric first token of \<^verbatim>\<open>1 0.0 0.0 0.0\<close>, gives
  no match, and no exception leaves the classifier.
\<close>

theorem C6_parse_element_line:
  "parse_input_coordinate_line line =
     (let parts = py_split line in
      if 4 \<le> length parts \<and> re_match ELEMENT_RE (parts ! 0)
         \<and> \<not> isl (py_float (parts ! 1)) \<and> \<not> isl (py_float (parts ! 2))
         \<and> \<not> isl (py_float (parts ! 3))
      then Inr (Some \<lparr>element = parts ! 0, x = projr (py_float (parts ! 1)),
                         y = projr (py_float (parts ! 2)), z = projr (py_float (parts ! 3))\<rparr>)
      else Inr None)
   \<and> parse_input_coordinate_line ''1 0.0 0.0 0.0'' = Inr None"
proof -
  have "parse_input_coordinate_line ''1 0.0 0.0 0.0'' = Inr None"
    by (simp add: parse_input_coordinate_line_def ev)
  with parse_input_coordinate_line_eq[of line] show ?thesis by blast
qed

text \<open>The claim as stated fails: a line with \<^verbatim>\<open>inf\<close> and \<^verbatim>\<open>nan\<close> is a match.\<close>

theorem C6_counterexample:
  "parse_input_coordinate_line ''C inf 0 nan''
     = Inr (Some \<lparr>element = ''C'', x = PosInf, y = Finite 0, z = NaN\<rparr>)"
  by (simp add: parse_input_coordinate_line_def ev)

text \<open>
  C2 (as amended). For every MOLPRO file with two geometry blocks of which the first yields
  no coordinate and the second yields some, extraction returns the coordinates of the
  second block: the blocks are tried in document order and the first one that yields a
  coordinate is the result.
\<close>

theorem C2_molpro_second_block:
  "geom_blocks content = [b1, b2] \<Longrightarrow> molpro_block b1 = Inr [] \<Longrightarrow> molpro_block b2 = Inr cs
     \<Longrightarrow> cs \<noteq> [] \<Longrightarrow> extract_from_molpro_file content = Inr cs"
  by (simp add: extract_from_molpro_file_def molpro_blocks_second)

definition two_geom_blocks :: string where
  "two_geom_blocks =
     ''geom={'' @ [NL] @ ''}'' @ [NL] @ ''geom={'' @ [NL] @ ''C 0.0 0.0 1.1'' @ [NL] @ ''}''"

lemma two_geom_blocks_blocks:
  "geom_blocks two_geom_blocks = [[NL], [NL] @ ''C 0.0 0.0 1.1'' @ [NL]]"
  by (simp add: two_geom_blocks_def geom_blocks_def ev)

lemma two_geom_blocks_first: "molpro_block [NL] = Inr []"
  by (simp add: molpro_block_def ev)

lemma two_geom_blocks_second:
  "molpro_block ([NL] @ ''C 0.0 0.0 1.1'' @ [NL])
     = Inr [\<lparr>element = ''C'', x = Finite 0, y = Finite 0, z = Finite (11 / 10)\<rparr>]"
  by (simp add: molpro_block_def starts_with_any_def parse_input_coordinate_line_def ev)

theorem C2_molpro_second_block_witness:
  "geom_blocks two_geom_blocks = [[NL], [NL] @ ''C 0.0 0.0 1.1'' @ [NL]]
   \<and> molpro_block [NL] = Inr []
   \<and> extract_from_molpro_file two_geom_blocks
       = Inr [\<lparr>element = ''C'', x = Finite 0, y = Finite 0, z = Finite (11 / 10)\<rparr>]"
  using C2_molpro_second_block[OF two_geom_blocks_blocks two_geom_blocks_first
      two_geom_blocks_second]
    two_geom_blocks_blocks two_geom_blocks_first
  by simp

text \<open>The claim as stated fails: the file has two blocks, the first yields no coordinate,
  the second holds a valid line, and the result is not empty.\<close>

theorem C2_counterexample:
  "geom_blocks two_geom_blocks = [[NL], [NL] @ ''C 0.0 0.0 1.1'' @ [NL]]
   \<and> molpro_block [NL] = Inr []
   \<and> extract_from_molpro_file two_geom_blocks \<noteq> Inr []"
  by (simp add: extract_from_molpro_file_def two_geom_blocks_blocks two_geom_blocks_first
      two_geom_blocks_second del: append.simps)

text \<open>
  C3 (as amended). In punch-string extraction an entry of four fields is accepted exactly
  when its element field matches the broader pattern \<^verbatim>\<open>^[A-Za-z]+(?:-[A-Za-z0-9]+)?$\<close> and
  its three numeric fields are accepted by \<^verbatim>\<open>float()\<close>: the stricter pattern is tested
  only when the broader one has failed, and then it fails too. A hyphen-tagged symbol such
  as \<^verbatim>\<open>C-13\<close> is accepted and kept as the element.
\<close>

theorem C3_punch_element_gate:
  "length parts = 4 \<Longrightarrow>
   parse_punch_entry parts =
     (if re_match ELEMENT_TAG_RE (py_strip (parts ! 0))
         \<and> \<not> isl (py_float (parts ! 1)) \<and> \<not> isl (py_float (parts ! 2))
         \<and> \<not> isl (py_float (parts ! 3))
      then Inr (Some \<lparr>element = py_strip (parts ! 0), x = projr (py_float (parts ! 1)),
                         y = projr (py_float (parts ! 2)), z = projr (py_float (parts ! 3))\<rparr>)
      else Inr None)"
  by (rule parse_punch_entry_eq)

lemma punch_entry_C13:
  "parse_punch_entry [''C-13'', ''0.'', ''0.'', ''1.1'']
     = Inr (Some \<lparr>element = ''C-13'', x = Finite 0, y = Finite 0, z = Finite (11 / 10)\<rparr>)"
  by (simp add: parse_punch_entry_def ev)

theorem C3_punch_element_gate_witness:
  "length [''C-13'', ''0.'', ''0.'', ''1.1''] = 4
   \<and> re_match ELEMENT_TAG_RE (py_strip ''C-13'')
   \<and> \<not> isl (py_float ''0.'') \<and> \<not> isl (py_float ''1.1'')"
proof -
  have h: "length [''C-13'', ''0.'', ''0.'', ''1.1''] = 4" by simp
  from C3_punch_element_gate[OF h] punch_entry_C13 h show ?thesis
    by (simp split: if_splits)
qed

text \<open>The claim as stated fails: the entry \<^verbatim>\<open>C-13,0.,0.,1.1\<close> is not skipped, although
  \<^verbatim>\<open>C-13\<close> does not match the strict pattern.\<close>

theorem C3_counterexample:
  "punch_entries [''C-13,0.,0.,1.1''] []
     = Inr [\<lparr>element = ''C-13'', x = Finite 0, y = Finite 0, z = Finite (11 / 10)\<rparr>]
   \<and> \<not> re_match ELEMENT_RE ''C-13''"
  by (simp add: parse_punch_entry_def ev)

text \<open>
  C5 (as amended). The extraction strategies do not normalize the case of element
  symbols. A coordinate parsed from an "Element X Y Z" line carries the first token as
  written, one parsed from a punch entry carries the stripped element field as written,
  and one parsed from a standard-orientation line carries the Element Table's symbol for
  the atomic number (or its decimal string). Normalization (first letter upper case, the
  rest lower case; upper case for a single letter) is applied by the formula generator to
  the symbols it tallies.
\<close>

theorem C5_element_as_written:
  "(parse_input_coordinate_line line = Inr (Some c) \<longrightarrow> element c = py_split line ! 0)
   \<and> (length parts = 4 \<longrightarrow> parse_punch_entry parts = Inr (Some c)
        \<longrightarrow> element c = py_strip (parts ! 0))
   \<and> (parse_coordinate_line line = Inr (Some c)
        \<longrightarrow> element c = get_element_symbol (projr (py_int (py_split line ! 1))))
   \<and> set (sorted_elements cs) = (\<lambda>c. normalize_symbol (element c)) ` set cs"
proof -
  have 1: "parse_input_coordinate_line line = Inr (Some c) \<longrightarrow> element c = py_split line ! 0"
    by (auto simp: parse_input_coordinate_line_eq[of line] Let_def split: if_splits)
  have 2: "length parts = 4 \<longrightarrow> parse_punch_entry parts = Inr (Some c)
        \<longrightarrow> element c = py_strip (parts ! 0)"
    by (auto simp: parse_punch_entry_eq[of parts] split: if_splits)
  have 3: "parse_coordinate_line line = Inr (Some c)
        \<longrightarrow> element c = get_element_symbol (projr (py_int (py_split line ! 1)))"
    by (auto simp: parse_coordinate_line_eq[of line] Let_def split: if_splits)
  from 1 2 3 sorted_elements_props(1)[of cs] show ?thesis by blast
qed

lemma input_line_lower_c:
  "parse_input_coordinate_line ''c 0.0 0.0 0.0''
     = Inr (Some \<lparr>element = ''c'', x = Finite 0, y = Finite 0, z = Finite 0\<rparr>)"
  by (simp add: parse_input_coordinate_line_def ev)

lemma center_line_carbon:
  "parse_coordinate_line ''1 6 0 0.000000 0.000000 1.100000''
     = Inr (Some \<lparr>element = ''C'', x = Finite 0, y = Finite 0, z = Finite (11 / 10)\<rparr>)"
  by (simp add: parse_coordinate_line_def get_element_symbol_def ELEMENT_MAP_def ev)

theorem C5_element_as_written_witness:
  "parse_input_coordinate_line ''c 0.0 0.0 0.0''
     = Inr (Some \<lparr>element = ''c'', x = Finite 0, y = Finite 0, z = Finite 0\<rparr>)
   \<and> ''c'' = py_split ''c 0.0 0.0 0.0'' ! 0
   \<and> length [''C-13'', ''0.'', ''0.'', ''1.1''] = 4
   \<and> ''C-13'' = py_strip ([''C-13'', ''0.'', ''0.'', ''1.1''] ! 0)
   \<and> ''C'' = get_element_symbol
               (projr (py_int (py_split ''1 6 0 0.000000 0.000000 1.100000'' ! 1)))"
proof -
  have h: "length [''C-13'', ''0.'', ''0.'', ''1.1''] = 4" by simp
  from C5_element_as_written[of "''c 0.0 0.0 0.0''"
      "\<lparr>element = ''c'', x = Finite 0, y = Finite 0, z = Finite 0\<rparr>"]
    input_line_lower_c
  have a: "''c'' = py_split ''c 0.0 0.0 0.0'' ! 0" by simp
  from C5_element_as_written[of _
      "\<lparr>element = ''C-13'', x = Finite 0, y = Finite 0, z = Finite (11 / 10)\<rparr>"
      "[''C-13'', ''0.'', ''0.'', ''1.1'']"]
    punch_entry_C13 h
  have b: "''C-13'' = py_strip ([''C-13'', ''0.'', ''0.'', ''1.1''] ! 0)" by simp
  from C5_element_as_written[of "''1 6 0 0.000000 0.000000 1.100000''"
      "\<lparr>element = ''C'', x = Finite 0, y = Finite 0, z = Finite (11 / 10)\<rparr>"]
    center_line_carbon
  have c: "''C'' = get_element_symbol
               (projr (py_int (py_split ''1 6 0 0.000000 0.000000 1.100000'' ! 1)))" by simp
  from input_line_lower_c a h b c show ?thesis by blast
qed

text \<open>The claim as stated fails: Gaussian-input extraction of a line whose first token is
  \<^verbatim>\<open>CL\<close> yields the element \<^verbatim>\<open>CL\<close>, which is not its normalized form \<^verbatim>\<open>Cl\<close>.\<close>

theorem C5_counterexample:
  "extract_from_input_file (''0 1'' @ [NL] @ ''CL 0.0 0.0 0.0'' @ [NL])
     = Inr [\<lparr>element = ''CL'', x = Finite 0, y = Finite 0, z = Finite 0\<rparr>]
   \<and> normalize_symbol ''CL'' = ''Cl''"
  by (simp add: extract_from_input_file_def slice_from_def parse_input_coordinate_line_def
      normalize_symbol_def ev)

lemma isinstance_Exception: "isinstance e [Exception]"
  by (cases e) (simp_all add: isinstance_def)

lemma parse_input_total: "\<exists>r. parse_input_coordinate_line s = Inr r"
  by (simp add: parse_input_coordinate_line_eq Let_def)

lemma parse_center_total: "\<exists>r. parse_coordinate_line s = Inr r"
  by (simp add: parse_coordinate_line_eq Let_def)

lemma parse_punch_entry_total: "length parts = 4 \<Longrightarrow> \<exists>r. parse_punch_entry parts = Inr r"
  by (simp add: parse_punch_entry_eq)

lemma punch_entries_total: "\<exists>cs. punch_entries es acc = Inr cs"
proof (induction es arbitrary: acc)
  case Nil
  show ?case by simp
next
  case (Cons e es)
  show ?case
  proof (cases "e \<noteq> [] \<and> length (split_on (CHR '','') e) = 4")
    case False
    then show ?thesis using Cons.IH by (auto simp: Let_def)
  next
    case True
    then obtain r where r: "parse_punch_entry (split_on (CHR '','') e) = Inr r"
      using parse_punch_entry_total by blast
    show ?thesis using True r Cons.IH by (cases r) (auto simp: Let_def)
  qed
qed

lemma extract_from_punch_total: "\<exists>cs. extract_from_punch content = Inr cs"
proof (cases "find_punch_string content")
  case None
  then show ?thesis by (simp add: extract_from_punch_def)
next
  case (Some p)
  have g: "\<not> length xs < 4 \<Longrightarrow> getitem xs 3 = Inr (xs ! 3)" for xs :: "string list"
    by (auto simp: getitem_def)
  show ?thesis
    using Some punch_entries_total
    by (auto simp: extract_from_punch_def Let_def g bind_Inr)
qed

lemma orientation_scan_total: "\<exists>cs. orientation_scan ls n acc = Inr cs"
proof (induction ls arbitrary: n acc)
  case Nil
  show ?case by simp
next
  case (Cons l ls)
  obtain r where r: "parse_coordinate_line (py_strip l) = Inr r"
    using parse_center_total by blast
  show ?case using r Cons.IH by (cases r) (auto simp: Let_def)
qed

lemma extract_from_standard_orientation_total:
  "\<exists>cs. extract_from_standard_orientation content = Inr cs"
  using orientation_scan_total by (auto simp: extract_from_standard_orientation_def Let_def)

lemma input_scan_total: "\<exists>cs. input_scan ls acc = Inr cs"
proof (induction ls arbitrary: acc)
  case Nil
  show ?case by simp
next
  case (Cons l ls)
  obtain r where r: "parse_input_coordinate_line (py_strip l) = Inr r"
    using parse_input_total by blast
  show ?case using r Cons.IH by (cases r) (auto simp: Let_def)
qed

lemma extract_from_input_file_total: "\<exists>cs. extract_from_input_file content = Inr cs"
  using input_scan_total by (auto simp: extract_from_input_file_def Let_def)

lemma molpro_lines_total: "\<exists>cs. molpro_lines ls acc = Inr cs"
proof (induction ls arbitrary: acc)
  case Nil
  show ?case by simp
next
  case (Cons l ls)
  obtain r where r: "parse_input_coordinate_line (py_strip l) = Inr r"
    using parse_input_total by blast
  show ?case using r Cons.IH by (cases r) (auto simp: Let_def)
qed

lemma molpro_blocks_total: "\<exists>cs. molpro_blocks bs = Inr cs"
proof (induction bs)
  case Nil
  show ?case by simp
next
  case (Cons b bs)
  obtain cs where "molpro_block b = Inr cs"
    using molpro_lines_total by (auto simp: molpro_block_def)
  then show ?case using Cons.IH by auto
qed

lemma extract_from_molpro_file_total: "\<exists>cs. extract_from_molpro_file content = Inr cs"
  using molpro_blocks_total by (simp add: extract_from_molpro_file_def)

lemma check_normal_termination_total: "\<exists>b. check_normal_termination f = Inr b"
  by (cases f) (auto simp: check_normal_termination_def try_except_def Let_def
      isinstance_Exception)

lemma read_file_content_total: "\<exists>r. read_file_content f = Inr r"
proof (cases f)
  case (Unreadable e)
  have "isinstance e [FileNotFoundError, Exception]"
    using isinstance_Exception[of e] by (simp add: isinstance_def)
  then show ?thesis
    using Unreadable by (simp add: read_file_content_def read_text_def bind_Inl try_except_Inl)
next
  case (Bytes b)
  then show ?thesis by (simp add: read_file_content_def read_text_def bind_Inr try_except_Inr)
qed

lemma extract_coordinates_total: "\<exists>cs. extract_coordinates fs file_path = Inr cs"
proof -
  obtain r where r: "read_file_content (fs file_path) = Inr r"
    using read_file_content_total by blast
  obtain b where b: "check_normal_termination (fs file_path) = Inr b"
    using check_normal_termination_total by blast
  show ?thesis
  proof (cases r)
    case None
    with r show ?thesis by (simp add: extract_coordinates_def extract_coordinates_run_def)
  next
    case (Some content)
    obtain c1 where c1: "extract_from_input_file content = Inr c1"
      using extract_from_input_file_total by blast
    obtain c2 where c2: "extract_from_punch content = Inr c2"
      using extract_from_punch_total by blast
    obtain c3 where c3: "extract_from_standard_orientation content = Inr c3"
      using extract_from_standard_orientation_total by blast
    obtain c4 where c4: "extract_from_molpro_file content = Inr c4"
      using extract_from_molpro_file_total by blast
    show ?thesis
      using r Some b c1 c2 c3 c4
      by (simp add: extract_coordinates_def extract_coordinates_run_def Let_def)
  qed
qed

text \<open>
  C10. For every path and every state of the file behind it (unreadable with any
  exception, or readable with any bytes, empty or malformed), \<^verbatim>\<open>extract_coordinates\<close>
  returns a list of coordinates: no exception leaves it.
\<close>

theorem C10_extract_coordinates_total:
  "\<exists>cs. extract_coordinates fs file_path = Inr cs"
  by (rule extract_coordinates_total)

lemma find_chg_mult_none:
  "dropWhile (\<lambda>l. \<not> re_match CHG_MULT_RE (py_strip l)) ls = [] \<Longrightarrow> find_chg_mult ls i = -1"
  by (induction ls arbitrary: i) (auto split: if_splits)

lemma find_chg_mult_some:
  "dropWhile (\<lambda>l. \<not> re_match CHG_MULT_RE (py_strip l)) ls \<noteq> [] \<Longrightarrow>
   find_chg_mult ls i
     = i + 1 + int (length (takeWhile (\<lambda>l. \<not> re_match CHG_MULT_RE (py_strip l)) ls))"
  by (induction ls arbitrary: i) (auto split: if_splits)

lemma drop_takeWhile_tl: "drop (Suc (length (takeWhile P xs))) xs = tl (dropWhile P xs)"
  by (induction xs) auto

lemma input_scan_eq:
  "input_scan ls acc
     = Inr (acc @ map (\<lambda>l. the (line_match (py_strip l)))
                    (takeWhile (\<lambda>l. py_strip l \<noteq> [] \<and> line_match (py_strip l) \<noteq> None) ls))"
proof (induction ls arbitrary: acc)
  case Nil
  show ?case by simp
next
  case (Cons l ls)
  obtain r where r: "parse_input_coordinate_line (py_strip l) = Inr r"
    using parse_input_total by blast
  show ?case using r Cons.IH by (cases r) (auto simp: Let_def line_match_def)
qed

lemma extract_from_input_file_eq:
  "extract_from_input_file content =
     (case dropWhile (\<lambda>l. \<not> is_charge_multiplicity l) (split_on NL content) of
        [] \<Rightarrow> Inr []
      | _ # rest \<Rightarrow>
          Inr (map (\<lambda>l. the (line_match (py_strip l)))
                 (takeWhile (\<lambda>l. py_strip l \<noteq> [] \<and> line_match (py_strip l) \<noteq> None) rest)))"
proof -
  define D where "D = dropWhile (\<lambda>l. \<not> re_match CHG_MULT_RE (py_strip l)) (split_on NL content)"
  have rhs: "dropWhile (\<lambda>l. \<not> is_charge_multiplicity l) (split_on NL content) = D"
    by (simp add: D_def is_charge_multiplicity_def)
  show ?thesis
  proof (cases D)
    case Nil
    then have "find_chg_mult (split_on NL content) 0 = -1"
      unfolding D_def by (rule find_chg_mult_none)
    then have "extract_from_input_file content = Inr []"
      by (simp add: extract_from_input_file_def Let_def)
    then show ?thesis by (simp only: rhs Nil list.case)
  next
    case (Cons m rest)
    then have ne: "dropWhile (\<lambda>l. \<not> re_match CHG_MULT_RE (py_strip l)) (split_on NL content) \<noteq> []"
      unfolding D_def by simp
    have "tl D = rest" using Cons by simp
    then have "slice_from (split_on NL content) (find_chg_mult (split_on NL content) 0) = rest"
      unfolding D_def
      by (simp add: find_chg_mult_some[OF ne] slice_from_def nat_add_distrib drop_takeWhile_tl)
    moreover have "find_chg_mult (split_on NL content) 0 \<noteq> -1"
      by (simp add: find_chg_mult_some[OF ne])
    ultimately have "extract_from_input_file content =
        Inr (map (\<lambda>l. the (line_match (py_strip l)))
               (takeWhile (\<lambda>l. py_strip l \<noteq> [] \<and> line_match (py_strip l) \<noteq> None) rest))"
      by (simp add: extract_from_input_file_def Let_def input_scan_eq)
    then show ?thesis by (simp only: rhs Cons list.case)
  qed
qed

text \<open>
  C7. Gaussian-input extraction returns the empty list when no line of the file has the
  charge and multiplicity shape (two optionally signed integers separated by whitespace and
  nothing else, once the line is stripped). Otherwise it returns, in file order, the
  "Element X Y Z" matches of the lines that follow the first such line, up to but not
  including the first line that is blank or fails to parse.
\<close>

theorem C7_gaussian_input:
  "extract_from_input_file content =
     (case dropWhile (\<lambda>l. \<not> is_charge_multiplicity l) (split_on NL content) of
        [] \<Rightarrow> Inr []
      | _ # rest \<Rightarrow>
          Inr (map (\<lambda>l. the (line_match (py_strip l)))
                 (takeWhile (\<lambda>l. py_strip l \<noteq> [] \<and> line_match (py_strip l) \<noteq> None) rest)))
   \<and> is_charge_multiplicity ''0 1'' \<and> is_charge_multiplicity '' -1   +2  ''
   \<and> \<not> is_charge_multiplicity ''0 1 2'' \<and> \<not> is_charge_multiplicity ''0''
   \<and> \<not> is_charge_multiplicity ''0 1.5'' \<and> \<not> is_charge_multiplicity ''C 0 1''"
proof -
  have "is_charge_multiplicity ''0 1''" "is_charge_multiplicity '' -1   +2  ''"
    "\<not> is_charge_multiplicity ''0 1 2''" "\<not> is_charge_multiplicity ''0''"
    "\<not> is_charge_multiplicity ''0 1.5''" "\<not> is_charge_multiplicity ''C 0 1''"
    by (simp_all add: is_charge_multiplicity_def ev)
  with extract_from_input_file_eq[of content] show ?thesis by blast
qed

theorem C7_gaussian_input_witness:
  "extract_from_input_file sample_com
     = Inr [\<lparr>element = ''C'', x = Finite 0, y = Finite 0, z = Finite (11 / 10)\<rparr>,
            \<lparr>element = ''H'', x = Finite 0, y = Finite 0, z = Finite 0\<rparr>]"
  using C7_gaussian_input[of sample_com]
  by (simp add: sample_com_def is_charge_multiplicity_def line_match_def
      parse_input_coordinate_line_def ev)

section \<open>Standard orientation\<close>

lemma orientation_scan_done:
  "3 \<le> n \<Longrightarrow> orientation_scan ls n acc = Inr acc"
  by (induction ls arbitrary: n) (auto simp: Let_def)

lemma orientation_scan_data:
  "orientation_scan ls (Suc (Suc 0)) acc = Inr (acc @ centers (takeWhile (\<lambda>l. \<not> is_delimiter l) ls))"
proof (induction ls arbitrary: acc)
  case Nil
  show ?case by (simp add: centers_def)
next
  case (Cons l ls)
  obtain r where r: "parse_coordinate_line (py_strip l) = Inr r"
    using parse_center_total by blast
  show ?case
  proof (cases "is_dash_line (py_strip l)")
    case True
    then show ?thesis
      by (simp add: orientation_scan_done is_delimiter_def centers_def)
  next
    case False
    show ?thesis
    proof (cases "py_strip l = []")
      case True
      with False show ?thesis
        using Cons.IH[of acc] by (simp add: is_delimiter_def centers_def)
    next
      case ne: False
      show ?thesis
      proof (cases r)
        case None
        with False ne r show ?thesis
          using Cons.IH[of acc] by (simp add: is_delimiter_def centers_def center_match_def)
      next
        case (Some c)
        with False ne r show ?thesis
          using Cons.IH[of "acc @ [c]"]
          by (simp add: is_delimiter_def centers_def center_match_def)
      qed
    qed
  qed
qed

lemma orientation_scan_header:
  "orientation_scan ls (Suc 0) acc = orientation_scan (after_delimiter ls) (Suc (Suc 0)) acc"
proof (induction ls)
  case Nil
  show ?case by (simp add: after_delimiter_def)
next
  case (Cons l ls)
  show ?case
  proof (cases "is_dash_line (py_strip l)")
    case True
    then show ?thesis by (simp add: after_delimiter_def is_delimiter_def)
  next
    case False
    then have "after_delimiter (l # ls) = after_delimiter ls"
      by (simp add: after_delimiter_def is_delimiter_def)
    with False Cons.IH show ?thesis by (simp add: Let_def)
  qed
qed

lemma orientation_scan_start:
  "orientation_scan ls 0 acc = orientation_scan (after_delimiter ls) (Suc 0) acc"
proof (induction ls)
  case Nil
  show ?case by (simp add: after_delimiter_def)
next
  case (Cons l ls)
  show ?case
  proof (cases "is_dash_line (py_strip l)")
    case True
    then show ?thesis by (simp add: after_delimiter_def is_delimiter_def)
  next
    case False
    then have "after_delimiter (l # ls) = after_delimiter ls"
      by (simp add: after_delimiter_def is_delimiter_def)
    with False Cons.IH show ?thesis by (simp add: Let_def)
  qed
qed

lemma orientation_scan_eq: "orientation_scan ls 0 [] = Inr (centers (data_zone ls))"
  by (simp add: orientation_scan_start orientation_scan_header orientation_scan_data data_zone_def)

lemma extract_from_standard_orientation_eq:
  "extract_from_standard_orientation content =
     (let matches = finditer (match_end STD_ORIENT_RE) content in
      if matches = [] then Inr []
      else Inr (centers (data_zone (split_on NL (last matches)))))"
  by (simp add: extract_from_standard_orientation_def Let_def orientation_scan_eq)

lemma star_rests_suffix: "r \<in> set (star_rests p s) \<Longrightarrow> suffix r s"
  by (induction s) (auto simp: suffix_Cons split: if_splits)

lemma rmatch_suffix: "r \<in> set (rmatch R s) \<Longrightarrow> suffix r s"
proof (induction R arbitrary: s r)
  case (Class p)
  then show ?case by (cases s) (auto simp: suffix_Cons split: if_splits)
next
  case (Cat a b)
  from Cat.prems obtain u where u: "u \<in> set (rmatch a s)" "r \<in> set (rmatch b u)" by auto
  then have "suffix r u" "suffix u s" using Cat.IH by blast+
  then show ?case using suffix_order.trans by blast
next
  case (Alt a b)
  then show ?case by auto
next
  case (Opt a)
  then show ?case by auto
next
  case (Star p)
  then show ?case by (simp add: star_rests_suffix)
next
  case (Plus p)
  then show ?case
    by (cases s) (auto simp: suffix_Cons dest: star_rests_suffix split: if_splits)
next
  case Eps
  then show ?case by simp
next
  case Dollar
  then show ?case by (auto split: if_splits)
qed

lemma rmatch_Class_shorter:
  "r \<in> set (rmatch (Cat (Cat (Class p) A) B) s) \<Longrightarrow> length r < length s"
proof -
  assume "r \<in> set (rmatch (Cat (Cat (Class p) A) B) s)"
  then obtain r0 r1 where r0: "r0 \<in> set (rmatch (Class p) s)"
    and r1: "r1 \<in> set (rmatch A r0)" and r: "r \<in> set (rmatch B r1)"
    by auto
  from r0 have "length r0 < length s" by (cases s) (auto split: if_splits)
  moreover from r1 have "length r1 \<le> length r0" by (intro suffix_length_le rmatch_suffix)
  moreover from r have "length r \<le> length r1" by (intro suffix_length_le rmatch_suffix)
  ultimately show ?thesis by linarith
qed

lemma std_orient_shorter: "r \<in> set (rmatch STD_ORIENT_RE s) \<Longrightarrow> length r < length s"
  unfolding STD_ORIENT_RE_def lit_ci_def foldr.simps o_apply list.simps
  by (rule rmatch_Class_shorter)

lemma match_end_std:
  "match_end STD_ORIENT_RE s = Some (v, r) \<Longrightarrow> length r < length s \<and> v = r"
  using std_orient_shorter[of r s]
  by (auto simp: match_end_def split: list.splits)

lemma finditer_none:
  "finditer m s = [] \<Longrightarrow> suffix u s \<Longrightarrow> m u = None"
proof (induction s)
  case Nil
  from Nil.prems(1) have "m [] = None"
    by (subst (asm) finditer.simps) (auto split: option.splits)
  with Nil.prems(2) show ?case by simp
next
  case (Cons c cs)
  from Cons.prems(1) have none: "m (c # cs) = None"
    by (subst (asm) finditer.simps) (auto split: option.splits)
  with Cons.prems(1) have "finditer m cs = []"
    by (subst (asm) finditer.simps) simp
  with Cons.IH have "suffix u cs \<Longrightarrow> m u = None" by simp
  with Cons.prems(2) none show ?case by (auto simp: suffix_Cons)
qed

lemma finditer_last:
  assumes m: "\<And>s v r. m s = Some (v, r) \<Longrightarrow> length r < length s \<and> v = r"
  shows "finditer m s \<noteq> [] \<Longrightarrow> finditer m (last (finditer m s)) = []"
proof (induction "length s" arbitrary: s rule: less_induct)
  case less
  show ?case
  proof (cases "m s")
    case None
    with less.prems obtain c cs where s: "s = c # cs"
      by (subst (asm) finditer.simps) (cases s, auto)
    with None have eq: "finditer m s = finditer m cs" by (subst finditer.simps) simp
    with less.prems less.hyps[of cs] s show ?thesis by simp
  next
    case (Some p)
    obtain v r where p: "p = (v, r)" by (cases p)
    with Some m have lt: "length r < length s" and v: "v = r" by blast+
    from Some p lt v have eq: "finditer m s = r # finditer m r"
      by (subst finditer.simps) simp
    show ?thesis
    proof (cases "finditer m r = []")
      case True
      with eq show ?thesis by simp
    next
      case False
      with eq less.hyps[OF lt False] show ?thesis by simp
    qed
  qed
qed

lemma finditer_member:
  assumes m: "\<And>s v r. m s = Some (v, r) \<Longrightarrow> length r < length s \<and> suffix r s"
  shows "v \<in> set (finditer m s) \<Longrightarrow> \<exists>u r. suffix u s \<and> m u = Some (v, r)"
proof (induction "length s" arbitrary: s rule: less_induct)
  case less
  show ?case
  proof (cases "m s")
    case None
    with less.prems obtain c cs where s: "s = c # cs"
      by (subst (asm) finditer.simps) (cases s, auto)
    with None less.prems have "v \<in> set (finditer m cs)"
      by (subst (asm) finditer.simps) simp
    with less.hyps[of cs] s obtain u r where "suffix u cs" "m u = Some (v, r)" by auto
    with s show ?thesis by (auto simp: suffix_Cons)
  next
    case (Some p)
    obtain w r where p: "p = (w, r)" by (cases p)
    with Some m have lt: "length r < length s" and sf: "suffix r s" by blast+
    from Some p lt have eq: "finditer m s = w # finditer m r"
      by (subst finditer.simps) simp
    show ?thesis
    proof (cases "v = w")
      case True
      with Some p show ?thesis by auto
    next
      case False
      with eq less.prems have "v \<in> set (finditer m r)" by simp
      with less.hyps[OF lt] obtain u r' where "suffix u r" "m u = Some (v, r')" by blast
      with sf show ?thesis using suffix_order.trans by blast
    qed
  qed
qed

lemma match_end_std_suffix:
  "match_end STD_ORIENT_RE s = Some (v, r) \<Longrightarrow> length r < length s \<and> suffix r s"
  using std_orient_shorter[of r s] rmatch_suffix[of r STD_ORIENT_RE s]
  by (auto simp: match_end_def split: list.splits)

lemma std_orient_last:
  assumes "finditer (match_end STD_ORIENT_RE) content \<noteq> []"
  shows "\<exists>u. suffix u content
           \<and> match_end STD_ORIENT_RE u
               = Some (last (finditer (match_end STD_ORIENT_RE) content),
                       last (finditer (match_end STD_ORIENT_RE) content))"
    and "suffix u (last (finditer (match_end STD_ORIENT_RE) content))
           \<Longrightarrow> \<not> re_match STD_ORIENT_RE u"
proof -
  let ?ms = "finditer (match_end STD_ORIENT_RE) content"
  from assms have "last ?ms \<in> set ?ms" by simp
  have "\<exists>u r. suffix u content \<and> match_end STD_ORIENT_RE u = Some (last ?ms, r)"
  proof (rule finditer_member)
    show "last ?ms \<in> set ?ms" by fact
  qed (rule match_end_std_suffix)
  then obtain p r where p: "suffix p content" "match_end STD_ORIENT_RE p = Some (last ?ms, r)"
    by blast
  with match_end_std[of p "last ?ms" r] have "r = last ?ms" by simp
  with p show "\<exists>u. suffix u content \<and> match_end STD_ORIENT_RE u = Some (last ?ms, last ?ms)"
    by blast
  assume sf: "suffix u (last ?ms)"
  have "finditer (match_end STD_ORIENT_RE) (last ?ms) = []"
  proof (rule finditer_last)
    show "?ms \<noteq> []" by fact
  qed (rule match_end_std)
  from finditer_none[OF this sf] have "match_end STD_ORIENT_RE u = None" .
  then show "\<not> re_match STD_ORIENT_RE u"
    by (simp add: match_end_def re_match_def split: list.splits)
qed

lemma std_orient_none:
  "finditer (match_end STD_ORIENT_RE) content = [] \<Longrightarrow> suffix u content
     \<Longrightarrow> \<not> re_match STD_ORIENT_RE u"
proof -
  assume "finditer (match_end STD_ORIENT_RE) content = []" "suffix u content"
  from finditer_none[OF this] show ?thesis
    by (simp add: match_end_def re_match_def split: list.splits)
qed

section \<open>The termination check\<close>

lemma contains_iff: "contains sub s = (\<exists>a b. s = a @ sub @ b)"
proof (induction s)
  case Nil
  show ?case by auto
next
  case (Cons c cs)
  show ?case
  proof
    assume "contains sub (c # cs)"
    then consider "prefix sub (c # cs)" | "contains sub cs" by auto
    then show "\<exists>a b. c # cs = a @ sub @ b"
    proof cases
      case 1
      then obtain b where "c # cs = sub @ b" by (auto simp: prefix_def)
      then have "c # cs = [] @ sub @ b" by simp
      then show ?thesis by blast
    next
      case 2
      with Cons.IH obtain a b where "cs = a @ sub @ b" by blast
      then have "c # cs = (c # a) @ sub @ b" by simp
      then show ?thesis by blast
    qed
  next
    assume "\<exists>a b. c # cs = a @ sub @ b"
    then obtain a b where ab: "c # cs = a @ sub @ b" by blast
    show "contains sub (c # cs)"
    proof (cases a)
      case Nil
      with ab have "prefix sub (c # cs)" by (simp add: prefix_def)
      then show ?thesis by simp
    next
      case (Cons a0 as)
      with ab have "cs = as @ sub @ b" by simp
      with Cons.IH have "contains sub cs" by blast
      then show ?thesis by simp
    qed
  qed
qed

lemma contains_Cons_other:
  "sub \<noteq> [] \<Longrightarrow> hd sub \<noteq> w \<Longrightarrow> contains sub (w # s) = contains sub s"
  by (cases sub) (auto simp: prefix_Cons)

lemma contains_snoc_other:
  assumes "sub \<noteq> []" "last sub \<noteq> w"
  shows "contains sub (s @ [w]) = contains sub s"
proof
  assume "contains sub (s @ [w])"
  then obtain a b where ab: "s @ [w] = a @ sub @ b" unfolding contains_iff by blast
  show "contains sub s"
  proof (cases b rule: rev_cases)
    case Nil
    with ab have "s @ [w] = (a @ butlast sub) @ [last sub]" using assms(1) by simp
    then have "w = last sub" by (metis last_snoc)
    with assms(2) show ?thesis by simp
  next
    case (snoc b' w')
    with ab have "s @ [w] = (a @ sub @ b') @ [w']" by simp
    then have "s = a @ sub @ b'" by (metis butlast_snoc)
    then show ?thesis unfolding contains_iff by blast
  qed
next
  assume "contains sub s"
  then obtain a b where "s = a @ sub @ b" unfolding contains_iff by blast
  then have "s @ [w] = a @ sub @ (b @ [w])" by simp
  then show "contains sub (s @ [w])" unfolding contains_iff by blast
qed

lemma dropWhile_nil_iff: "(dropWhile P xs = []) = list_all P xs"
  by (induction xs) auto

lemma py_strip_nil_iff: "(py_strip l = []) = list_all isspace l"
proof -
  have "(py_strip l = []) = list_all isspace (rev (dropWhile isspace l))"
    by (simp add: py_strip_def dropWhile_nil_iff del: dropWhile_eq_Nil_conv)
  also have "\<dots> = list_all isspace (dropWhile isspace l)" by (simp add: list_all_iff)
  also have "\<dots> = list_all isspace l" by (induction l) auto
  finally show ?thesis .
qed

lemma split_on_not_nil: "split_on sep s \<noteq> []"
  by (induction s) (auto split: list.splits)

lemma split_on_Cons_sep: "split_on sep (sep # s) = [] # split_on sep s"
  by simp

lemma split_on_Cons_other:
  "w \<noteq> sep \<Longrightarrow> split_on sep (w # s) = (w # hd (split_on sep s)) # tl (split_on sep s)"
  using split_on_not_nil[of sep s] by (cases "split_on sep s") auto

lemma split_on_snoc_sep: "split_on sep (s @ [sep]) = split_on sep s @ [[]]"
  by (induction s) (auto simp: split_on_not_nil split: list.splits)

lemma split_on_snoc_other:
  "w \<noteq> sep \<Longrightarrow>
   split_on sep (s @ [w]) = butlast (split_on sep s) @ [last (split_on sep s) @ [w]]"
proof (induction s)
  case Nil
  then show ?case by simp
next
  case (Cons c s)
  then show ?case
    using split_on_not_nil[of sep s]
    by (cases "split_on sep s") (auto split: list.splits if_splits)
qed

lemma tail_text_eq: "tail_text b = universal_newlines (drop (length b - 1000) b)"
proof -
  have "nat (max 0 (int (length b) - min 1000 (int (length b)))) = length b - 1000" by arith
  moreover have "\<not> max 0 (int (length b) - min 1000 (int (length b))) < 0" by arith
  ultimately show ?thesis by (simp add: tail_text_def slice_from_def Let_def)
qed

lemma blank_Cons: "isspace w \<Longrightarrow> (py_strip (w # l) = []) = (py_strip l = [])"
  by (simp add: py_strip_nil_iff)

lemma blank_snoc: "isspace w \<Longrightarrow> (py_strip (l @ [w]) = []) = (py_strip l = [])"
  by (simp add: py_strip_nil_iff)

lemma not_space_N: "isspace w \<Longrightarrow> w \<noteq> CHR ''N'' \<and> w \<noteq> CHR ''n''"
  by (auto simp: isspace_def)

lemma tail_terminated_Cons:
  assumes w: "isspace w"
  shows "tail_terminated (w # t) = tail_terminated t"
proof (cases "w = NL")
  case True
  then show ?thesis by (simp add: tail_terminated_def nonblank_lines_def py_strip_def)
next
  case False
  obtain h tl where L: "split_on NL t = h # tl"
    using split_on_not_nil[of NL t] by (cases "split_on NL t") auto
  with False have S: "split_on NL (w # t) = (w # h) # tl" by simp
  have c: "contains ''Normal termination'' (w # h) = contains ''Normal termination'' h"
    using not_space_N[OF w] by (intro contains_Cons_other) auto
  show ?thesis
    using blank_Cons[OF w, of h] c
    by (simp add: tail_terminated_def nonblank_lines_def L S)
qed

lemma tail_terminated_snoc:
  assumes w: "isspace w"
  shows "tail_terminated (t @ [w]) = tail_terminated t"
proof (cases "w = NL")
  case True
  then show ?thesis
    by (simp add: tail_terminated_def nonblank_lines_def split_on_snoc_sep py_strip_def)
next
  case False
  define L where "L = split_on NL t"
  have ne: "L \<noteq> []" by (simp add: L_def split_on_not_nil)
  then have Leq: "L = butlast L @ [last L]" by simp
  have S: "split_on NL (t @ [w]) = butlast L @ [last L @ [w]]"
    using False by (simp add: L_def split_on_snoc_other)
  have c: "contains ''Normal termination'' (last L @ [w]) = contains ''Normal termination'' (last L)"
    using not_space_N[OF w] by (intro contains_snoc_other) auto
  have "nonblank_lines t = filter (\<lambda>l. py_strip l \<noteq> []) (butlast L @ [last L])"
    using Leq by (simp add: nonblank_lines_def L_def)
  then show ?thesis
    using blank_snoc[OF w, of "last L"] c
    by (simp add: tail_terminated_def nonblank_lines_def S)
qed

lemma tail_terminated_lstrip: "tail_terminated (dropWhile isspace t) = tail_terminated t"
  by (induction t) (simp_all add: tail_terminated_Cons)

lemma tail_terminated_rstrip:
  "tail_terminated (rev (dropWhile isspace (rev t))) = tail_terminated t"
  by (induction t rule: rev_induct) (simp_all add: tail_terminated_snoc)

lemma tail_terminated_strip: "tail_terminated (py_strip t) = tail_terminated t"
  by (simp add: py_strip_def tail_terminated_rstrip tail_terminated_lstrip)

lemma py_strip_last: "py_strip t \<noteq> [] \<Longrightarrow> \<not> isspace (last (py_strip t))"
proof -
  assume ne: "py_strip t \<noteq> []"
  define D where "D = dropWhile isspace (rev (dropWhile isspace t))"
  from ne have D: "D \<noteq> []" by (simp add: py_strip_def D_def)
  then have "\<not> isspace (hd D)" unfolding D_def by (rule hd_dropWhile)
  moreover have "last (py_strip t) = hd D" using D by (simp add: py_strip_def D_def last_rev)
  ultimately show ?thesis by simp
qed

lemma last_line_last:
  "s \<noteq> [] \<Longrightarrow> last s \<noteq> sep \<Longrightarrow>
   last (split_on sep s) \<noteq> [] \<and> last (last (split_on sep s)) = last s"
  by (cases s rule: rev_cases) (simp_all add: split_on_snoc_other)

lemma last_filter:
  "xs \<noteq> [] \<Longrightarrow> P (last xs) \<Longrightarrow> filter P xs \<noteq> [] \<and> last (filter P xs) = last xs"
  by (cases xs rule: rev_cases) simp_all

lemma stripped_last_line:
  assumes "s = py_strip t"
  shows "contains ''Normal termination'' (last (split_on NL s)) = tail_terminated s"
proof (cases "s = []")
  case True
  then show ?thesis by (simp add: tail_terminated_def nonblank_lines_def py_strip_def)
next
  case False
  with assms have ns: "\<not> isspace (last s)" using py_strip_last by simp
  then have "last s \<noteq> NL" by (auto simp: isspace_def)
  from last_line_last[OF False this]
  have l: "last (split_on NL s) \<noteq> []" "last (last (split_on NL s)) = last s" by simp_all
  then have "last s \<in> set (last (split_on NL s))" by (metis last_in_set)
  with ns have "\<not> list_all isspace (last (split_on NL s))" by (auto simp: list_all_iff)
  then have nb: "py_strip (last (split_on NL s)) \<noteq> []" by (simp add: py_strip_nil_iff)
  from last_filter[of "split_on NL s" "\<lambda>l. py_strip l \<noteq> []", OF split_on_not_nil nb]
  show ?thesis by (simp add: tail_terminated_def nonblank_lines_def)
qed

lemma check_normal_termination_eq:
  "check_normal_termination f =
     Inr (case f of Unreadable e \<Rightarrow> False | Bytes b \<Rightarrow> tail_terminated (tail_text b))"
proof (cases f)
  case (Unreadable e)
  then show ?thesis
    by (simp add: check_normal_termination_def try_except_def isinstance_Exception)
next
  case (Bytes b)
  have "contains ''Normal termination'' (last (split_on NL (py_strip (tail_text b))))
          = tail_terminated (tail_text b)"
    using stripped_last_line[OF refl, of "tail_text b"] by (simp add: tail_terminated_strip)
  with Bytes show ?thesis
    by (simp add: check_normal_termination_def try_except_def Let_def split_on_not_nil)
qed

text \<open>
  C8. The termination checker returns true exactly when the last non-empty line (the last
  line that is not blank) of the text of the file's final at-most-1000 bytes contains
  \<^verbatim>\<open>Normal termination\<close>; a file that cannot be opened or read gives false, and no
  exception leaves the checker.
\<close>

theorem C8_check_normal_termination:
  "check_normal_termination f =
     Inr (case f of Unreadable e \<Rightarrow> False | Bytes b \<Rightarrow> tail_terminated (tail_text b))
   \<and> tail_text b = universal_newlines (drop (length b - 1000) b)"
  using check_normal_termination_eq[of f] tail_text_eq[of b] by blast

theorem C8_check_normal_termination_witness:
  "check_normal_termination (Bytes sample_tail) = Inr True
   \<and> check_normal_termination (Unreadable PermissionError) = Inr False"
  using C8_check_normal_termination[of "Bytes sample_tail" sample_tail]
    C8_check_normal_termination[of "Unreadable PermissionError"]
  by (simp add: sample_tail_def tail_terminated_def nonblank_lines_def ev)

lemma two_orientations_matches:
  "last (finditer (match_end STD_ORIENT_RE) two_orientations)
     = [NL] @ dash_line @ [NL] @ '' Center Number'' @ [NL]
     @ dash_line @ [NL] @ '' 1 6 0 0.0 0.0 1.1'' @ [NL] @ dash_line @ [NL] @ '' 2 1 0 9 9 9''
   \<and> finditer (match_end STD_ORIENT_RE) two_orientations \<noteq> []"
  by (simp add: two_orientations_def dash_line_def ev)

lemma two_orientations_centers:
  "centers (data_zone (split_on NL ([NL] @ dash_line @ [NL] @ '' Center Number'' @ [NL]
     @ dash_line @ [NL] @ '' 1 6 0 0.0 0.0 1.1'' @ [NL] @ dash_line @ [NL] @ '' 2 1 0 9 9 9'')))
     = [\<lparr>element = ''C'', x = Finite 0, y = Finite 0, z = Finite (11 / 10)\<rparr>]"
  by (simp add: dash_line_def centers_def data_zone_def after_delimiter_def is_delimiter_def
      is_dash_line_def center_match_def parse_coordinate_line_def get_element_symbol_def
      ELEMENT_MAP_def ev)

lemma two_orientations_phrase:
  "extract_after_phrase two_orientations
     = Inr [\<lparr>element = ''H'', x = Finite 0, y = Finite 0, z = Finite (1 / 2)\<rparr>]"
  by (simp add: extract_after_phrase_def STD_ORIENT_PHRASE_def
      two_orientations_def dash_line_def centers_def data_zone_def after_delimiter_def
      is_delimiter_def is_dash_line_def center_match_def parse_coordinate_line_def
      get_element_symbol_def ELEMENT_MAP_def ev)

text \<open>
  C4 (as amended). Standard-orientation extraction uses only the text after the last match
  of the pattern \<^verbatim>\<open>standard\s+orientation:\<close> (the two words in any case, with one or more
  whitespace characters between them); with no match the result is empty. Within that
  text a delimiter counter runs over the structural-delimiter lines (five dashes in a row,
  stripped length over 20), and exactly the center-line matches of the non-blank lines
  between the second delimiter and the third are returned, in order. No line after the
  third delimiter contributes, and nothing before the last match does.
\<close>

theorem C4_standard_orientation:
  "extract_from_standard_orientation content =
     (let matches = finditer (match_end STD_ORIENT_RE) content in
      if matches = [] then Inr []
      else Inr (centers (data_zone (split_on NL (last matches)))))
   \<and> (finditer (match_end STD_ORIENT_RE) content \<noteq> [] \<longrightarrow>
        (\<exists>u. suffix u content
           \<and> match_end STD_ORIENT_RE u
               = Some (last (finditer (match_end STD_ORIENT_RE) content),
                       last (finditer (match_end STD_ORIENT_RE) content)))
        \<and> (\<forall>u. suffix u (last (finditer (match_end STD_ORIENT_RE) content))
               \<longrightarrow> \<not> re_match STD_ORIENT_RE u))
   \<and> (finditer (match_end STD_ORIENT_RE) content = [] \<longrightarrow>
        (\<forall>u. suffix u content \<longrightarrow> \<not> re_match STD_ORIENT_RE u))"
  using extract_from_standard_orientation_eq[of content] std_orient_last[of content]
    std_orient_none[of content]
  by blast

theorem C4_standard_orientation_witness:
  "finditer (match_end STD_ORIENT_RE) two_orientations \<noteq> []
   \<and> extract_from_standard_orientation two_orientations
       = Inr [\<lparr>element = ''C'', x = Finite 0, y = Finite 0, z = Finite (11 / 10)\<rparr>]"
  using C4_standard_orientation[of two_orientations] two_orientations_matches
    two_orientations_centers
  by (simp add: Let_def)

text \<open>The claim as stated fails: the last occurrence of \<^verbatim>\<open>standard orientation:\<close> in this
  log heads the hydrogen block, and the result is the carbon of the block whose heading
  has two spaces.\<close>

theorem C4_counterexample:
  "extract_after_phrase two_orientations
     = Inr [\<lparr>element = ''H'', x = Finite 0, y = Finite 0, z = Finite (1 / 2)\<rparr>]
   \<and> extract_from_standard_orientation two_orientations
       = Inr [\<lparr>element = ''C'', x = Finite 0, y = Finite 0, z = Finite (11 / 10)\<rparr>]"
  using two_orientations_phrase two_orientations_matches two_orientations_centers
  by (simp add: extract_from_standard_orientation_eq Let_def)

section \<open>The Gaussian log strategy\<close>












end
